theory Spec2Isabelle
  imports Main "HOL-Library.AList" "HOL-Library.Sublist"
begin

section \<open>Values, errors and the lifecycle state graph\<close>

text \<open>
  JavaScript values as far as \<^verbatim>\<open>internal-model.js\<close> compares or prints them: ids,
  attribute values and event contexts. Objects are references (\<open>Ref\<close>), so the
  strict equality \<^verbatim>\<open>===\<close> of the source is the equality of this type. Numbers are
  integers here; \<^verbatim>\<open>NaN\<close> and fractions are outside the model.
\<close>

datatype val = Undefined | Null | Bool bool | Num int | Str string | Ref nat

text \<open>
  The second argument of \<^verbatim>\<open>send\<close>: a plain value (\<open>Plain Undefined\<close> when the caller
  passes none) or an object literal built by the caller, such as
  \<^verbatim>\<open>{ name: key, isDirty: isDirty }\<close>.
\<close>

datatype event_context = Plain val | Props "(string \<times> val) list"

text \<open>
  What the source throws: \<^verbatim>\<open>EmberError\<close> with its message, a failed \<^verbatim>\<open>assert\<close> of
  \<^verbatim>\<open>@ember/debug\<close> with its message (debug builds, where \<^verbatim>\<open>assert\<close> throws), and the
  \<^verbatim>\<open>TypeError\<close> of the runtime on a property read of \<^verbatim>\<open>undefined\<close>/\<^verbatim>\<open>null\<close> or a call of
  a non-function. The state a thrown exception leaves behind is not modelled.
\<close>

datatype js_error = EmberError string | AssertionFailed string | TypeError

type_synonym sid = nat

text \<open>The facade (\<^verbatim>\<open>DS.Model\<close> instance) as far as the control block reads or writes it.\<close>

record facade =
  fid :: nat
  f_currentState :: sid
  f_isError :: bool
  f_adapterError :: val
  f_options :: "(string \<times> val) list"
  f_isDestroyed :: bool
  f_isDestroying :: bool

text \<open>A promise wrapper of the relationship cache; the source guards on its \<^verbatim>\<open>destroy\<close> method.\<close>

record promise_proxy =
  pid :: nat
  has_destroy :: bool

text \<open>
  The fields of \<^verbatim>\<open>InternalModel\<close> that the modelled methods touch. A leading underscore
  of the source is written \<open>p_\<close>; \<^verbatim>\<open>id\<close> is \<open>im_id\<close> and \<^verbatim>\<open>error\<close> is \<open>im_error\<close>.
  The three caches are objects created with \<^verbatim>\<open>Object.create(null)\<close> and iterated with
  \<^verbatim>\<open>Object.keys\<close>, hence association lists in insertion order; a many array is the
  reference of the \<^verbatim>\<open>ManyArray\<close> object. \<open>'md\<close> is the state of the model-data
  collaborator.
\<close>

record 'md internal_model =
  im_id :: val
  modelName :: string
  clientId :: val
  p_modelData :: 'md
  p_record :: "facade option"
  p_isDestroyed :: bool
  isDestroying :: bool
  isError :: bool
  im_error :: val
  isReloading :: bool
  p_isDematerializing :: bool
  p_scheduledDestroy :: "nat option"
  p_doNotDestroy :: bool
  currentState :: sid
  p_deferredTriggers :: "val list list"
  p_manyArrayCache :: "(string \<times> nat) list"
  p_retainedManyArrayCache :: "(string \<times> nat) list"
  p_relationshipPromisesCache :: "(string \<times> promise_proxy) list"

type_synonym 'md hook = "'md internal_model \<Rightarrow> js_error + 'md internal_model"

type_synonym 'md handler =
  "'md internal_model \<Rightarrow> event_context \<Rightarrow> js_error + val \<times> 'md internal_model"

text \<open>
  Modelled from the spec: the state objects of \<^verbatim>\<open>./states\<close> (\<^verbatim>\<open>RootState\<close>), which the
  source imports and which is not among the source files. Section 3 of the
  specification: a state is a node of a static tree, it optionally defines the hooks
  \<^verbatim>\<open>enter\<close>, \<^verbatim>\<open>exit\<close> and \<^verbatim>\<open>setup\<close> and maps event names to handlers; the source reads in
  addition \<^verbatim>\<open>stateName\<close>, \<^verbatim>\<open>parentState\<close> and the flags \<^verbatim>\<open>isDeleted\<close> and \<^verbatim>\<open>isNew\<close>.
  A state object is a reference \<open>sid\<close> into the graph; \<^verbatim>\<open>state[segment]\<close> is the lookup
  among the children and \<^verbatim>\<open>currentState[name]\<close> the lookup among the handlers. Hooks and
  handlers receive the control block and may change it or throw.
\<close>

record 'md state_obj =
  stateName :: string
  parentState :: "sid option"
  children :: "(string \<times> sid) list"
  exit_hook :: "'md hook option"
  enter_hook :: "'md hook option"
  setup_hook :: "'md hook option"
  handlers :: "(string \<times> 'md handler) list"
  st_isDeleted :: bool
  st_isNew :: bool

type_synonym 'md graph = "sid \<Rightarrow> 'md state_obj"

text \<open>An entry of \<^verbatim>\<open>TransitionChainMap\<close>: \<^verbatim>\<open>{ setups, enters, state }\<close>.\<close>

record chain =
  setups :: "sid list"
  enters :: "sid list"
  state :: sid

text \<open>
  Calls the control block makes on hooks, handlers and outside collaborators, in the
  order it makes them.
\<close>

datatype call =
    ExitHook sid | EnterHook sid | SetupHook sid
  | HandlerCall sid string event_context
  | RecordDidChange
  | FacadeNotifyPropertyChange nat string
  | FacadeDestroy nat
  | FacadeTrigger nat "val list"
  | FacadeCreate nat
  | PromiseDestroy nat
  | ManyArrayCreate nat string
  | ManyArrayDestroy nat
  | ManyArrayRemoveUnloaded nat
  | RemoveFromIdMap
  | Schedule nat
  | Cancel "nat option"

text \<open>
  The control block together with what lives outside it: the module-level
  \<^verbatim>\<open>TransitionChainMap\<close>, the log of calls, the \<^verbatim>\<open>destroy\<close> queue of the run loop
  (timers scheduled and not yet run or cancelled), a counter for the references of
  objects created on the way, and the two globals \<^verbatim>\<open>run.currentRunLoop\<close> and
  \<^verbatim>\<open>Ember.testing\<close>.
\<close>

record 'md world =
  im :: "'md internal_model"
  TransitionChainMap :: "string \<rightharpoonup> chain"
  calls :: "call list"
  destroyQueue :: "nat list"
  next_ref :: nat
  currentRunLoop :: bool
  testing :: bool

section \<open>Path helpers\<close>

text \<open>
  \<^verbatim>\<open>name.split('.')\<close>. The two module-level caches \<^verbatim>\<open>_splitOnDotCache\<close> and
  \<^verbatim>\<open>_extractPivotNameCache\<close> store the results of these pure functions under the
  argument and are transparent.
\<close>

fun split_from :: "string \<Rightarrow> string \<Rightarrow> string list" where
  "split_from cur [] = [cur]"
| "split_from cur (c # cs) =
     (if c = CHR ''.'' then cur # split_from [] cs else split_from (cur @ [c]) cs)"

definition splitOnDot :: "string \<Rightarrow> string list" where
  "splitOnDot name = split_from [] name"

definition extractPivotName :: "string \<Rightarrow> string" where
  "extractPivotName name = (case splitOnDot name of [] \<Rightarrow> [] | p # _ \<Rightarrow> p)"

section \<open>Transitions\<close>

definition bindE :: "js_error + 'a \<Rightarrow> ('a \<Rightarrow> js_error + 'b) \<Rightarrow> js_error + 'b" where
  "bindE m f = (case m of Inl e \<Rightarrow> Inl e | Inr x \<Rightarrow> f x)"

text \<open>\<^verbatim>\<open>this.store.recordArrayManager.recordDidChange(this)\<close>\<close>

definition updateRecordArrays :: "'md world \<Rightarrow> 'md world" where
  "updateRecordArrays w = w\<lparr>calls := calls w @ [RecordDidChange]\<rparr>"

text \<open>One hook invocation \<^verbatim>\<open>s.hook(this)\<close>: logged, then run on the control block.\<close>

definition call_hook :: "call \<Rightarrow> 'md hook \<Rightarrow> 'md world \<Rightarrow> js_error + 'md world" where
  "call_hook c h w =
     (case h (im w) of
        Inl e \<Rightarrow> Inl e
      | Inr m \<Rightarrow> Inr (w\<lparr>im := m, calls := calls w @ [c]\<rparr>))"

text \<open>
  The \<^verbatim>\<open>do { ... } while (!state[pivotName])\<close> loop of \<^verbatim>\<open>transitionTo\<close>. Nothing in the
  source bounds it, so not returning is the value \<open>None\<close>.
\<close>

partial_function (option) exit_loop ::
  "'md graph \<Rightarrow> string \<Rightarrow> sid \<Rightarrow> 'md world \<Rightarrow> (js_error + sid \<times> 'md world) option" where
  "exit_loop G pivotName s w =
     (case (case exit_hook (G s) of
              None \<Rightarrow> Inr w
            | Some h \<Rightarrow> call_hook (ExitHook s) h w) of
        Inl e \<Rightarrow> Some (Inl e)
      | Inr w' \<Rightarrow>
          (case parentState (G s) of
             None \<Rightarrow> Some (Inl TypeError)
           | Some p \<Rightarrow>
               if map_of (children (G p)) pivotName = None
               then exit_loop G pivotName p w'
               else Some (Inr (p, w'))))"

declare exit_loop.simps [code]

text \<open>
  The \<^verbatim>\<open>for\<close> loop over \<^verbatim>\<open>path\<close> on a cache miss: \<^verbatim>\<open>state = state[path[i]]\<close>, then the two
  \<^verbatim>\<open>push\<close>es. A missing child makes \<^verbatim>\<open>state\<close> undefined and \<^verbatim>\<open>state.enter\<close> throws.
\<close>

fun collect ::
  "'md graph \<Rightarrow> string list \<Rightarrow> sid \<Rightarrow> sid list \<Rightarrow> sid list \<Rightarrow> js_error + chain" where
  "collect G [] s sus ens = Inr \<lparr>setups = sus, enters = ens, state = s\<rparr>"
| "collect G (seg # path) s sus ens =
     (case map_of (children (G s)) seg of
        None \<Rightarrow> Inl TypeError
      | Some s' \<Rightarrow>
          collect G path s'
            (if setup_hook (G s') \<noteq> None then sus @ [s'] else sus)
            (if enter_hook (G s') \<noteq> None then ens @ [s'] else ens))"

text \<open>\<^verbatim>\<open>for (i = 0, l = enters.length; i < l; i++) enters[i].enter(this)\<close>, and the same for setups.\<close>

fun run_enters :: "'md graph \<Rightarrow> sid list \<Rightarrow> 'md world \<Rightarrow> js_error + 'md world" where
  "run_enters G [] w = Inr w"
| "run_enters G (s # ss) w =
     (case enter_hook (G s) of
        None \<Rightarrow> Inl TypeError
      | Some h \<Rightarrow> bindE (call_hook (EnterHook s) h w) (run_enters G ss))"

fun run_setups :: "'md graph \<Rightarrow> sid list \<Rightarrow> 'md world \<Rightarrow> js_error + 'md world" where
  "run_setups G [] w = Inr w"
| "run_setups G (s # ss) w =
     (case setup_hook (G s) of
        None \<Rightarrow> Inl TypeError
      | Some h \<Rightarrow> bindE (call_hook (SetupHook s) h w) (run_setups G ss))"

text \<open>
  \<^verbatim>\<open>this.currentState = state; if (this.hasRecord) set(this._record, 'currentState', state)\<close>
\<close>

definition set_currentState :: "sid \<Rightarrow> 'md internal_model \<Rightarrow> 'md internal_model" where
  "set_currentState s m =
     m\<lparr>currentState := s,
       p_record := (case p_record m of
                      None \<Rightarrow> None
                    | Some r \<Rightarrow> Some (r\<lparr>f_currentState := s\<rparr>))\<rparr>"

definition transitionMapId :: "'md graph \<Rightarrow> sid \<Rightarrow> string \<Rightarrow> string" where
  "transitionMapId G s name = stateName (G s) @ ''->'' @ name"

text \<open>The lookup in \<^verbatim>\<open>TransitionChainMap\<close>, and on a miss the walk and the store.\<close>

definition plan ::
  "'md graph \<Rightarrow> string \<Rightarrow> string \<Rightarrow> sid \<Rightarrow> 'md world \<Rightarrow> js_error + chain \<times> 'md world" where
  "plan G key name s w =
     (case TransitionChainMap w key of
        Some m \<Rightarrow> Inr (m, w)
      | None \<Rightarrow>
          bindE (collect G (splitOnDot name) s [] [])
            (\<lambda>m. Inr (m, w\<lparr>TransitionChainMap := (TransitionChainMap w)(key \<mapsto> m)\<rparr>)))"

text \<open>What \<^verbatim>\<open>transitionTo\<close> does once the chain is known.\<close>

definition replay :: "'md graph \<Rightarrow> chain \<Rightarrow> 'md world \<Rightarrow> js_error + 'md world" where
  "replay G m w =
     bindE (run_enters G (enters m) w) (\<lambda>w3.
       bindE (run_setups G (setups m) (w3\<lparr>im := set_currentState (state m) (im w3)\<rparr>))
         (\<lambda>w5. Inr (updateRecordArrays w5)))"

definition transitionTo ::
  "'md graph \<Rightarrow> string \<Rightarrow> 'md world \<Rightarrow> (js_error + 'md world) option" where
  "transitionTo G name w =
     (let pivotName = extractPivotName name;
          s = currentState (im w);
          key = transitionMapId G s name
      in case exit_loop G pivotName s w of
           None \<Rightarrow> None
         | Some r \<Rightarrow>
             Some (bindE r (\<lambda>(s1, w1).
               bindE (plan G key name s1 w1) (\<lambda>(m, w2). replay G m w2))))"

section \<open>The collaborators\<close>

text \<open>
  What the control block consumes from code outside the file, taken as parameters:
  \<^verbatim>\<open>inspect\<close> of \<^verbatim>\<open>@ember/debug\<close>; \<^verbatim>\<open>RootState.empty\<close>; the \<^verbatim>\<open>fields\<close> map (\<open>classFields\<close>) of the model
  class (a field name to its kind); the operations of the model-data object on its own
  state \<open>'md\<close>, where \<open>md_setHasRelationshipData\<close> stands for the two calls
  \<^verbatim>\<open>setHasAnyRelationshipData(true)\<close> and \<^verbatim>\<open>setRelationshipIsEmpty(false)\<close> on the
  relationship and \<open>md_setDirtyHasMany\<close> receives the records as passed;
  \<^verbatim>\<open>isArrayLike\<close>; whether every element of a value owns \<^verbatim>\<open>_internalModel\<close>; and what
  \<^verbatim>\<open>removeUnloadedInternalModel\<close> answers for a many array. Failures inside the
  collaborators are outside the model.
\<close>

record 'md env =
  inspect :: "event_context \<Rightarrow> string"
  rootEmpty :: sid
  classFields :: "string \<Rightarrow> string option"
  getAttr :: "'md \<Rightarrow> string \<Rightarrow> val"
  md_setDirtyAttribute :: "'md \<Rightarrow> string \<Rightarrow> val \<Rightarrow> 'md"
  isAttrDirty :: "'md \<Rightarrow> string \<Rightarrow> bool"
  md_setDirtyBelongsTo :: "'md \<Rightarrow> string \<Rightarrow> val \<Rightarrow> 'md"
  md_setDirtyHasMany :: "'md \<Rightarrow> string \<Rightarrow> val \<Rightarrow> 'md"
  md_setHasRelationshipData :: "'md \<Rightarrow> string \<Rightarrow> 'md"
  md_unloadRecord :: "'md \<Rightarrow> 'md"
  isArrayLike :: "val \<Rightarrow> bool"
  allHaveInternalModel :: "val \<Rightarrow> bool"
  removeUnloadedInternalModel :: "nat \<Rightarrow> bool"

section \<open>Strings of values\<close>

fun digits :: "nat \<Rightarrow> string" where
  "digits n =
     (if n < 10 then [char_of (48 + n)]
      else digits (n div 10) @ [char_of (48 + n mod 10)])"

declare digits.simps [simp del]

definition apostrophe :: string where
  "apostrophe = [CHR 0x27]"

text \<open>The string a template literal or \<^verbatim>\<open>String(...)\<close> makes of a value.\<close>

fun to_string :: "val \<Rightarrow> string" where
  "to_string Undefined = ''undefined''"
| "to_string Null = ''null''"
| "to_string (Bool b) = (if b then ''true'' else ''false'')"
| "to_string (Num i) = (if i < 0 then CHR ''-'' # digits (nat (- i)) else digits (nat i))"
| "to_string (Str s) = s"
| "to_string (Ref r) = ''[object Object]''"

text \<open>\<^verbatim>\<open>toString() { return `<${this.modelName}:${this.id}>`; }\<close>\<close>

definition toString :: "'md internal_model \<Rightarrow> string" where
  "toString m = ''<'' @ modelName m @ '':'' @ to_string (im_id m) @ ''>''"

section \<open>Event dispatch\<close>

definition unhandledEvent ::
  "'md env \<Rightarrow> 'md graph \<Rightarrow> 'md internal_model \<Rightarrow> sid \<Rightarrow> string \<Rightarrow> event_context \<Rightarrow> js_error" where
  "unhandledEvent E G m s name ctx =
     EmberError
       (''Attempted to handle event `'' @ name @ ''` ''
        @ ''on '' @ toString m @ '' while in state ''
        @ stateName (G s) @ ''. ''
        @ (if ctx \<noteq> Plain Undefined then ''Called with '' @ inspect E ctx @ ''.'' else []))"

text \<open>
  \<^verbatim>\<open>send(name, context)\<close>: \<^verbatim>\<open>_unhandledEvent\<close> always throws, so the call of the handler
  is reached only when the current state has one.
\<close>

definition send ::
  "'md env \<Rightarrow> 'md graph \<Rightarrow> string \<Rightarrow> event_context \<Rightarrow> 'md world \<Rightarrow> js_error + val \<times> 'md world" where
  "send E G name ctx w =
     (let s = currentState (im w)
      in case map_of (handlers (G s)) name of
           None \<Rightarrow> Inl (unhandledEvent E G (im w) s name ctx)
         | Some h \<Rightarrow>
             (case h (im w) ctx of
                Inl e \<Rightarrow> Inl e
              | Inr (v, m) \<Rightarrow>
                  Inr (v, w\<lparr>im := m, calls := calls w @ [HandlerCall s name ctx]\<rparr>)))"

definition isDeleted :: "'md graph \<Rightarrow> 'md internal_model \<Rightarrow> bool" where
  "isDeleted G m = st_isDeleted (G (currentState m))"

definition isNew :: "'md graph \<Rightarrow> 'md internal_model \<Rightarrow> bool" where
  "isNew G m = st_isNew (G (currentState m))"

definition isDestroyed :: "'md internal_model \<Rightarrow> bool" where
  "isDestroyed m = p_isDestroyed m"

section \<open>Identity and staged attributes\<close>

definition setId :: "'md graph \<Rightarrow> val \<Rightarrow> 'md world \<Rightarrow> js_error + 'md world" where
  "setId G i w =
     (let m = im w
      in if \<not> (im_id m = Null \<or> im_id m = i \<or> isNew G m)
         then Inl (AssertionFailed
                (''A record'' @ apostrophe
                 @ ''s id cannot be changed once it is in the loaded state''))
         else
           let didChange = (i \<noteq> im_id m);
               w' = w\<lparr>im := m\<lparr>im_id := i\<rparr>\<rparr>
           in case p_record m of
                Some r \<Rightarrow>
                  if didChange
                  then Inr (w'\<lparr>calls := calls w' @ [FacadeNotifyPropertyChange (fid r) ''id'']\<rparr>)
                  else Inr w'
              | None \<Rightarrow> Inr w')"

definition setDirtyAttribute ::
  "'md env \<Rightarrow> 'md graph \<Rightarrow> string \<Rightarrow> val \<Rightarrow> 'md world \<Rightarrow> js_error + val \<times> 'md world" where
  "setDirtyAttribute E G key v w =
     (if isDeleted G (im w)
      then Inl (EmberError
             (''Attempted to set '' @ apostrophe @ key @ apostrophe @ '' to ''
              @ apostrophe @ to_string v @ apostrophe
              @ '' on the deleted record '' @ toString (im w)))
      else
        let currentValue = getAttr E (p_modelData (im w)) key
        in if currentValue \<noteq> v
           then
             let md = md_setDirtyAttribute E (p_modelData (im w)) key v;
                 isDirty = isAttrDirty E md key
             in bindE
                  (send E G ''didSetProperty''
                     (Props [(''name'', Str key), (''isDirty'', Bool isDirty)])
                     (w\<lparr>im := (im w)\<lparr>p_modelData := md\<rparr>\<rparr>))
                  (\<lambda>(r, w'). Inr (v, w'))
           else Inr (v, w))"

text \<open>\<^verbatim>\<open>setDirtyBelongsTo\<close> hands over to the model data.\<close>

definition setDirtyBelongsTo :: "'md env \<Rightarrow> string \<Rightarrow> val \<Rightarrow> 'md world \<Rightarrow> 'md world" where
  "setDirtyBelongsTo E key v w =
     w\<lparr>im := (im w)\<lparr>p_modelData := md_setDirtyBelongsTo E (p_modelData (im w)) key v\<rparr>\<rparr>"

definition setDirtyHasMany ::
  "'md env \<Rightarrow> string \<Rightarrow> val \<Rightarrow> 'md world \<Rightarrow> js_error + 'md world" where
  "setDirtyHasMany E key records w =
     (if \<not> isArrayLike E records
      then Inl (AssertionFailed
             ''You must pass an array of records to set a hasMany relationship'')
      else if \<not> allHaveInternalModel E records
      then Inl (AssertionFailed
             (''All elements of a hasMany relationship must be instances of DS.Model, ''
              @ ''you passed '' @ inspect E (Plain records)))
      else Inr (w\<lparr>im := (im w)\<lparr>p_modelData :=
                  md_setDirtyHasMany E (p_modelData (im w)) key records\<rparr>\<rparr>))"

section \<open>Construction and materialization\<close>

text \<open>\<^verbatim>\<open>resetRecord\<close>\<close>

definition resetRecord :: "'md env \<Rightarrow> 'md internal_model \<Rightarrow> 'md internal_model" where
  "resetRecord E m =
     m\<lparr>p_record := None, isReloading := False, im_error := Null,
       currentState := rootEmpty E\<rparr>"

text \<open>
  The constructor; \<open>md\<close> is what \<^verbatim>\<open>store._createModelData\<close> returns. \<^verbatim>\<open>isDestroying\<close> and
  \<^verbatim>\<open>_doNotDestroy\<close> are not assigned there and read as false until they are.
\<close>

definition new_InternalModel ::
  "'md env \<Rightarrow> string \<Rightarrow> val \<Rightarrow> val \<Rightarrow> 'md \<Rightarrow> 'md internal_model" where
  "new_InternalModel E name i cid md =
     resetRecord E
       \<lparr>im_id = i, modelName = name, clientId = cid, p_modelData = md,
        p_record = None, p_isDestroyed = False, isDestroying = False,
        isError = False, im_error = Undefined, isReloading = False,
        p_isDematerializing = False, p_scheduledDestroy = None,
        p_doNotDestroy = False, currentState = rootEmpty E,
        p_deferredTriggers = [], p_manyArrayCache = [],
        p_retainedManyArrayCache = [], p_relationshipPromisesCache = []\<rparr>"

text \<open>\<^verbatim>\<open>_triggerDeferredTriggers\<close>: each queued trigger is applied to the facade, in order.\<close>

definition triggerDeferredTriggers :: "'md world \<Rightarrow> 'md world" where
  "triggerDeferredTriggers w =
     (case p_record (im w) of
        None \<Rightarrow> w
      | Some r \<Rightarrow>
          w\<lparr>im := (im w)\<lparr>p_deferredTriggers := []\<rparr>,
            calls := calls w @ map (FacadeTrigger (fid r)) (p_deferredTriggers (im w))\<rparr>)"

text \<open>
  The argument of \<^verbatim>\<open>getRecord\<close>: \<^verbatim>\<open>undefined\<close>, a value that is not an object (\<^verbatim>\<open>null\<close> or a
  primitive), or an object with its own enumerable properties in key order.
\<close>

datatype properties = NoProperties | NonObject val | Properties "(string \<times> val) list"

text \<open>
  The loop of \<^verbatim>\<open>getRecord\<close> over \<^verbatim>\<open>Object.keys(properties)\<close>; \<open>opts\<close> collects the
  properties that the \<^verbatim>\<open>default\<close> branch writes into \<^verbatim>\<open>createOptions\<close>.
\<close>

fun apply_properties ::
  "'md env \<Rightarrow> 'md graph \<Rightarrow> (string \<times> val) list \<Rightarrow> (string \<times> val) list \<Rightarrow> 'md world
     \<Rightarrow> js_error + (string \<times> val) list \<times> 'md world" where
  "apply_properties E G [] opts w = Inr (opts, w)"
| "apply_properties E G ((name, v) # ps) opts w =
     (if name = ''id''
      then (case setId G v w of
              Inl e \<Rightarrow> Inl e
            | Inr w' \<Rightarrow> apply_properties E G ps opts w')
      else if classFields E name = Some ''attribute''
      then (case setDirtyAttribute E G name v w of
              Inl e \<Rightarrow> Inl e
            | Inr (r, w') \<Rightarrow> apply_properties E G ps opts w')
      else if classFields E name = Some ''belongsTo''
      then (let w' = setDirtyBelongsTo E name v w
            in apply_properties E G ps opts
                 (w'\<lparr>im := (im w')\<lparr>p_modelData :=
                    md_setHasRelationshipData E (p_modelData (im w')) name\<rparr>\<rparr>))
      else if classFields E name = Some ''hasMany''
      then (case setDirtyHasMany E name v w of
              Inl e \<Rightarrow> Inl e
            | Inr w' \<Rightarrow>
                apply_properties E G ps opts
                  (w'\<lparr>im := (im w')\<lparr>p_modelData :=
                     md_setHasRelationshipData E (p_modelData (im w')) name\<rparr>\<rparr>))
      else apply_properties E G ps (AList.update name v opts) w)"

text \<open>
  \<^verbatim>\<open>getRecord(properties)\<close>. \<^verbatim>\<open>createOptions\<close> takes \<^verbatim>\<open>currentState\<close>, \<^verbatim>\<open>isError\<close> and
  \<^verbatim>\<open>adapterError\<close> from the control block before the loop runs; the factory's \<^verbatim>\<open>create\<close>
  returns a new object, here a facade with a fresh reference.
\<close>

definition getRecord ::
  "'md env \<Rightarrow> 'md graph \<Rightarrow> properties \<Rightarrow> 'md world \<Rightarrow> js_error + facade option \<times> 'md world" where
  "getRecord E G properties w =
     (if p_record (im w) = None \<and> \<not> p_isDematerializing (im w)
      then
        let cs = currentState (im w);
            ie = isError (im w);
            ae = im_error (im w)
        in bindE
             (case properties of
                NoProperties \<Rightarrow> Inr ([], w)
              | NonObject v \<Rightarrow>
                  Inl (AssertionFailed
                    (''You passed '' @ apostrophe @ to_string v @ apostrophe
                     @ '' as properties for record creation instead of an object.''))
              | Properties ps \<Rightarrow> apply_properties E G ps [] w)
             (\<lambda>(opts, w1).
                let r = \<lparr>fid = next_ref w1, f_currentState = cs, f_isError = ie,
                         f_adapterError = ae, f_options = opts,
                         f_isDestroyed = False, f_isDestroying = False\<rparr>;
                    w2 = w1\<lparr>im := (im w1)\<lparr>p_record := Some r\<rparr>,
                            next_ref := Suc (next_ref w1),
                            calls := calls w1 @ [FacadeCreate (fid r)]\<rparr>;
                    w3 = triggerDeferredTriggers w2
                in Inr (p_record (im w3), w3))
      else Inr (p_record (im w), w))"

section \<open>Dematerialization, unloading and destruction\<close>

text \<open>\<^verbatim>\<open>Object.keys\<close> of a cache.\<close>

definition keys :: "(string \<times> 'a) list \<Rightarrow> string list" where
  "keys al = remdups (map fst al)"

text \<open>
  The two \<^verbatim>\<open>forEach\<close> loops of \<^verbatim>\<open>dematerializeRecord\<close>. Each runs over the keys the cache
  had when the loop started, and every key is looked up before it is deleted.
\<close>

fun destroy_promises :: "string list \<Rightarrow> 'md world \<Rightarrow> 'md world" where
  "destroy_promises [] w = w"
| "destroy_promises (key # ks) w =
     destroy_promises ks
       (case map_of (p_relationshipPromisesCache (im w)) key of
          None \<Rightarrow> w
        | Some p \<Rightarrow>
            w\<lparr>im := (im w)\<lparr>p_relationshipPromisesCache :=
                   AList.delete key (p_relationshipPromisesCache (im w))\<rparr>,
              calls := (if has_destroy p then calls w @ [PromiseDestroy (pid p)]
                        else calls w)\<rparr>)"

fun retain_manyArrays :: "string list \<Rightarrow> 'md internal_model \<Rightarrow> 'md internal_model" where
  "retain_manyArrays [] m = m"
| "retain_manyArrays (key # ks) m =
     retain_manyArrays ks
       (case map_of (p_manyArrayCache m) key of
          None \<Rightarrow> m
        | Some a \<Rightarrow>
            m\<lparr>p_retainedManyArrayCache := AList.update key a (p_retainedManyArrayCache m),
              p_manyArrayCache := AList.delete key (p_manyArrayCache m)\<rparr>)"

definition dematerializeRecord :: "'md env \<Rightarrow> 'md world \<Rightarrow> 'md world" where
  "dematerializeRecord E w =
     (let w0 = w\<lparr>im := (im w)\<lparr>p_isDematerializing := True, p_doNotDestroy := False\<rparr>\<rparr>;
          w1 = (case p_record (im w0) of
                  None \<Rightarrow> w0
                | Some r \<Rightarrow>
                    let wa = destroy_promises (keys (p_relationshipPromisesCache (im w0))) w0;
                        wb = wa\<lparr>im := retain_manyArrays (keys (p_manyArrayCache (im wa))) (im wa)\<rparr>
                    in wb\<lparr>calls := calls wb @ [FacadeDestroy (fid r)]\<rparr>);
          w2 = w1\<lparr>im := resetRecord E (im w1)\<rparr>;
          w3 = w2\<lparr>im := (im w2)\<lparr>p_modelData := md_unloadRecord E (p_modelData (im w2))\<rparr>\<rparr>
      in updateRecordArrays w3)"

text \<open>
  \<^verbatim>\<open>unloadRecord\<close>. \<^verbatim>\<open>run.backburner.schedule('destroy', this, ...)\<close> returns a new timer,
  which the run loop keeps in its \<^verbatim>\<open>destroy\<close> queue.
\<close>

definition unloadRecord :: "'md env \<Rightarrow> 'md graph \<Rightarrow> 'md world \<Rightarrow> js_error + 'md world" where
  "unloadRecord E G w =
     (if isDestroyed (im w) then Inr w
      else
        bindE (send E G ''unloadRecord'' (Plain Undefined) w) (\<lambda>(r, w1).
          let w2 = dematerializeRecord E w1
          in if p_scheduledDestroy (im w2) = None
             then
               if \<not> currentRunLoop w2 \<and> \<not> testing w2
               then Inl (AssertionFailed
                      (''You have turned on testing mode, which disabled the run-loop''
                       @ apostrophe @ ''s autorun.'' @ [CHR 0x0A]
                       @ ''                  You will need to wrap any code with ''
                       @ ''asynchronous side-effects in a run''))
               else
                 let t = next_ref w2
                 in Inr (w2\<lparr>im := (im w2)\<lparr>p_scheduledDestroy := Some t\<rparr>,
                            next_ref := Suc t,
                            destroyQueue := destroyQueue w2 @ [t],
                            calls := calls w2 @ [Schedule t]\<rparr>)
             else Inr w2))"

text \<open>\<^verbatim>\<open>cancelDestroy\<close>; \<^verbatim>\<open>run.cancel\<close> takes the timer out of the queue.\<close>

definition cancelDestroy :: "'md world \<Rightarrow> js_error + 'md world" where
  "cancelDestroy w =
     (if isDestroyed (im w)
      then Inl (AssertionFailed
             ''You cannot cancel the destruction of an InternalModel once it has already been destroyed'')
      else
        let t = p_scheduledDestroy (im w)
        in Inr (w\<lparr>im := (im w)\<lparr>p_doNotDestroy := True, p_isDematerializing := False,
                              p_scheduledDestroy := None\<rparr>,
                   destroyQueue := (case t of
                                      None \<Rightarrow> destroyQueue w
                                    | Some x \<Rightarrow> removeAll x (destroyQueue w)),
                   calls := calls w @ [Cancel t]\<rparr>))"

text \<open>
  \<^verbatim>\<open>_checkForOrphanedInternalModels\<close>: two assignments, then a test of \<^verbatim>\<open>isDestroyed\<close>
  whose two branches both return.
\<close>

definition checkForOrphanedInternalModels :: "'md world \<Rightarrow> 'md world" where
  "checkForOrphanedInternalModels w =
     (let w' = w\<lparr>im := (im w)\<lparr>p_isDematerializing := False, p_scheduledDestroy := None\<rparr>\<rparr>
      in if isDestroyed (im w') then w' else w')"

text \<open>The \<^verbatim>\<open>forEach\<close> loop of \<^verbatim>\<open>destroy\<close> over the retained cache.\<close>

fun destroy_retained :: "string list \<Rightarrow> 'md world \<Rightarrow> 'md world" where
  "destroy_retained [] w = w"
| "destroy_retained (key # ks) w =
     destroy_retained ks
       (case map_of (p_retainedManyArrayCache (im w)) key of
          None \<Rightarrow> w
        | Some a \<Rightarrow>
            w\<lparr>im := (im w)\<lparr>p_retainedManyArrayCache :=
                   AList.delete key (p_retainedManyArrayCache (im w))\<rparr>,
              calls := calls w @ [ManyArrayDestroy a]\<rparr>)"

definition destroy :: "'md world \<Rightarrow> js_error + 'md world" where
  "destroy w =
     (if \<not> (case p_record (im w) of
               None \<Rightarrow> True
             | Some r \<Rightarrow> f_isDestroyed r \<or> f_isDestroying r)
      then Inl (AssertionFailed
             ''Cannot destroy an internalModel while its record is materialized'')
      else
        let w1 = w\<lparr>im := (im w)\<lparr>isDestroying := True\<rparr>\<rparr>;
            w2 = destroy_retained (keys (p_retainedManyArrayCache (im w1))) w1;
            w3 = w2\<lparr>calls := calls w2 @ [RemoveFromIdMap]\<rparr>
        in Inr (w3\<lparr>im := (im w3)\<lparr>p_isDestroyed := True\<rparr>\<rparr>))"

definition destroyFromModelData :: "'md world \<Rightarrow> js_error + 'md world" where
  "destroyFromModelData w =
     (if p_doNotDestroy (im w)
      then Inr (w\<lparr>im := (im w)\<lparr>p_doNotDestroy := False\<rparr>\<rparr>)
      else destroy w)"

definition destroySync :: "'md world \<Rightarrow> js_error + 'md world" where
  "destroySync w =
     bindE (if p_isDematerializing (im w) then cancelDestroy w else Inr w) (\<lambda>w1.
       let w2 = checkForOrphanedInternalModels w1
       in if isDestroyed (im w2) \<or> isDestroying (im w2) then Inr w2 else destroy w2)"

section \<open>The many-array caches\<close>





section \<open>The transition as the specification words it\<close>

text \<open>
  Step 2 of the algorithm in section 4.1 of the specification, without the hooks:
  \<open>climbs G pivot s xs a\<close> says that \<open>xs\<close> lists the states left, starting with the
  current state \<open>s\<close>, each the parent of the one before, and that the parent \<open>a\<close> of the
  last one is the first among the parents reached to have the pivot among its children.
\<close>

fun climbs :: "'md graph \<Rightarrow> string \<Rightarrow> sid \<Rightarrow> sid list \<Rightarrow> sid \<Rightarrow> bool" where
  "climbs G pivot s [] a = False"
| "climbs G pivot s [x] a =
     (x = s \<and> parentState (G s) = Some a \<and> map_of (children (G a)) pivot \<noteq> None)"
| "climbs G pivot s (x # y # ys) a =
     (x = s \<and> parentState (G s) = Some y \<and> map_of (children (G y)) pivot = None
      \<and> climbs G pivot y (y # ys) a)"

text \<open>Step 3: the nodes visited on the way down along the segments of the target path.\<close>

fun descend :: "'md graph \<Rightarrow> sid \<Rightarrow> string list \<Rightarrow> sid list option" where
  "descend G s [] = Some []"
| "descend G s (seg # path) =
     (case map_of (children (G s)) seg of
        None \<Rightarrow> None
      | Some c \<Rightarrow> map_option ((#) c) (descend G c path))"

text \<open>
  Invoking one kind of hook on every state of a list that defines it, in list order:
  the hook runs on the control block as the hook before left it, the invocation is
  noted in the log, and the first hook that throws ends the run.
\<close>

fun invoke_hooks ::
  "(sid \<Rightarrow> call) \<Rightarrow> ('md state_obj \<Rightarrow> 'md hook option) \<Rightarrow> 'md graph \<Rightarrow> sid list
     \<Rightarrow> 'md world \<Rightarrow> js_error + 'md world" where
  "invoke_hooks c sel G [] w = Inr w"
| "invoke_hooks c sel G (s # ss) w =
     (case sel (G s) of
        None \<Rightarrow> invoke_hooks c sel G ss w
      | Some h \<Rightarrow>
          (case h (im w) of
             Inl e \<Rightarrow> Inl e
           | Inr m \<Rightarrow> invoke_hooks c sel G ss (w\<lparr>im := m, calls := calls w @ [c s]\<rparr>)))"

text \<open>
  Steps 2 to 7 in the order of the specification: the exit hooks of the states left,
  upward; the enter hooks of the nodes, root to leaf; the last node becomes the current
  state of the control block and of the facade, if there is one; the setup hooks of the
  nodes, root to leaf; the membership tracker is told.
\<close>

definition transition_steps ::
  "'md graph \<Rightarrow> sid list \<Rightarrow> sid list \<Rightarrow> 'md world \<Rightarrow> js_error + 'md world" where
  "transition_steps G xs nodes w =
     (case invoke_hooks ExitHook exit_hook G xs w of
        Inl e \<Rightarrow> Inl e
      | Inr w1 \<Rightarrow>
          (case invoke_hooks EnterHook enter_hook G nodes w1 of
             Inl e \<Rightarrow> Inl e
           | Inr w2 \<Rightarrow>
               (case invoke_hooks SetupHook setup_hook G nodes
                       (w2\<lparr>im := (im w2)
                              \<lparr>currentState := last nodes,
                               p_record :=
                                 map_option (\<lambda>r. r\<lparr>f_currentState := last nodes\<rparr>)
                                   (p_record (im w2))\<rparr>\<rparr>) of
                  Inl e \<Rightarrow> Inl e
                | Inr w3 \<Rightarrow> Inr (w3\<lparr>calls := calls w3 @ [RecordDidChange]\<rparr>))))"

text \<open>The chain that the walk of steps 2 and 3 yields.\<close>

definition chain_of :: "'md graph \<Rightarrow> sid list \<Rightarrow> chain" where
  "chain_of G nodes =
     \<lparr>setups = filter (\<lambda>s. setup_hook (G s) \<noteq> None) nodes,
      enters = filter (\<lambda>s. enter_hook (G s) \<noteq> None) nodes,
      state = last nodes\<rparr>"

section \<open>The transition without the cache\<close>

text \<open>
  \<^verbatim>\<open>transitionTo\<close> with the transition-chain cache disabled: the chain is computed by the
  walk every time and nothing is stored.
\<close>

definition transitionTo_uncached ::
  "'md graph \<Rightarrow> string \<Rightarrow> 'md world \<Rightarrow> (js_error + 'md world) option" where
  "transitionTo_uncached G name w =
     (let pivotName = extractPivotName name;
          s = currentState (im w)
      in case exit_loop G pivotName s w of
           None \<Rightarrow> None
         | Some r \<Rightarrow>
             Some (bindE r (\<lambda>(s1, w1).
               bindE (collect G (splitOnDot name) s1 [] []) (\<lambda>m. replay G m w1))))"

text \<open>What a caller can observe of a world: all of it but the cache.\<close>

definition forget_chains :: "'md world \<Rightarrow> 'md world" where
  "forget_chains w = w\<lparr>TransitionChainMap := Map.empty\<rparr>"

definition observe :: "(js_error + 'md world) option \<Rightarrow> (js_error + 'md world) option" where
  "observe r = map_option (map_sum id forget_chains) r"

text \<open>
  The states \<open>S\<close> of the machine are addressed by their names: no two share a name, and
  no name contains the character \<open>>\<close> of the separator of a cache key.
\<close>

definition wf_names :: "'md graph \<Rightarrow> sid list \<Rightarrow> bool" where
  "wf_names G S =
     ((\<forall>s \<in> set S. CHR ''>'' \<notin> set (stateName (G s)))
      \<and> (\<forall>s \<in> set S. \<forall>t \<in> set S. stateName (G s) = stateName (G t) \<longrightarrow> s = t))"

text \<open>
  The contents \<^verbatim>\<open>TransitionChainMap\<close> can have: it starts empty, and the only write is the
  store at the end of a walk, made under the key of the state the transition started
  from, with the chain that the walk from the ancestor found for that state collected.
\<close>

inductive stored_chains :: "'md graph \<Rightarrow> sid list \<Rightarrow> (string \<rightharpoonup> chain) \<Rightarrow> bool"
  for G :: "'md graph" and S :: "sid list" where
  empty: "stored_chains G S Map.empty"
| store: "stored_chains G S c \<Longrightarrow> s \<in> set S
          \<Longrightarrow> climbs G (extractPivotName name) s xs a
          \<Longrightarrow> collect G (splitOnDot name) a [] [] = Inr m
          \<Longrightarrow> stored_chains G S (c(transitionMapId G s name \<mapsto> m))"

section \<open>Invariants of the control block\<close>


text \<open>The run loop holds exactly the timer the control block remembers, if any.\<close>

definition schedule_consistent :: "'md world \<Rightarrow> bool" where
  "schedule_consistent w =
     (destroyQueue w = (case p_scheduledDestroy (im w) of None \<Rightarrow> [] | Some t \<Rightarrow> [t]))"

section \<open>A small state machine to run the definitions on\<close>

type_synonym attrs = "(string \<times> val) list"

definition plain_state :: "string \<Rightarrow> sid option \<Rightarrow> (string \<times> sid) list \<Rightarrow> attrs state_obj" where
  "plain_state n p cs =
     \<lparr>stateName = n, parentState = p, children = cs,
      exit_hook = None, enter_hook = None, setup_hook = None,
      handlers = [], st_isDeleted = False, st_isNew = False\<rparr>"

text \<open>
  A hook that leaves a note on the control block: its label, the current state it found
  and the current state of the facade it found (\<open>Null\<close> without a facade).
\<close>

definition note_hook :: "string \<Rightarrow> attrs hook" where
  "note_hook n m =
     Inr (m\<lparr>p_deferredTriggers :=
            p_deferredTriggers m @
              [[Str n, Num (int (currentState m)),
                (case p_record m of
                   None \<Rightarrow> Null
                 | Some r \<Rightarrow> Num (int (f_currentState r)))]]\<rparr>)"

definition quiet_handler :: "attrs handler" where
  "quiet_handler m ctx = Inr (Undefined, m)"

text \<open>
  \<open>root (0)\<close> with \<open>empty (1)\<close>, \<open>loaded (2)\<close> and \<open>deleted (6)\<close>; \<open>loaded\<close> with \<open>saved (3)\<close> and
  \<open>updated (4)\<close>; \<open>updated\<close> with \<open>uncommitted (5)\<close>; \<open>deleted\<close> with \<open>saved (7)\<close>.
\<close>

definition G0 :: "attrs graph" where
  "G0 s =
     (if s = 0 then plain_state ''root'' None [(''empty'', 1), (''loaded'', 2), (''deleted'', 6)]
      else if s = 1 then
        (plain_state ''root.empty'' (Some 0) [])\<lparr>handlers := [(''unloadRecord'', quiet_handler)]\<rparr>
      else if s = 2 then plain_state ''root.loaded'' (Some 0) [(''saved'', 3), (''updated'', 4)]
      else if s = 3 then
        (plain_state ''root.loaded.saved'' (Some 2) [])
          \<lparr>exit_hook := Some (note_hook ''left saved''),
           setup_hook := Some (note_hook ''saved''),
           handlers := [(''unloadRecord'', quiet_handler), (''didSetProperty'', quiet_handler)]\<rparr>
      else if s = 4 then
        (plain_state ''root.loaded.updated'' (Some 2) [(''uncommitted'', 5)])
          \<lparr>enter_hook := Some (note_hook ''dirty'')\<rparr>
      else if s = 5 then
        (plain_state ''root.loaded.updated.uncommitted'' (Some 4) [])
          \<lparr>setup_hook := Some (note_hook ''uncommitted''),
           handlers := [(''didSetProperty'', quiet_handler)]\<rparr>
      else if s = 6 then
        (plain_state ''root.deleted'' (Some 0) [(''saved'', 7)])\<lparr>st_isDeleted := True\<rparr>
      else
        (plain_state ''root.deleted.saved'' (Some 6) [])\<lparr>st_isDeleted := True\<rparr>)"

definition S0 :: "sid list" where
  "S0 = [0, 1, 2, 3, 4, 5, 6, 7]"

definition E0 :: "attrs env" where
  "E0 =
     \<lparr>inspect = (\<lambda>c. case c of Plain v \<Rightarrow> to_string v | Props ps \<Rightarrow> ''[object Object]''),
      rootEmpty = 1,
      classFields = map_of [(''title'', ''attribute'')],
      getAttr = (\<lambda>md k. case map_of md k of None \<Rightarrow> Undefined | Some v \<Rightarrow> v),
      md_setDirtyAttribute = (\<lambda>md k v. AList.update k v md),
      isAttrDirty = (\<lambda>md k. True),
      md_setDirtyBelongsTo = (\<lambda>md k v. md),
      md_setDirtyHasMany = (\<lambda>md k v. md),
      md_setHasRelationshipData = (\<lambda>md k. md),
      md_unloadRecord = (\<lambda>md. md),
      isArrayLike = (\<lambda>v. False),
      allHaveInternalModel = (\<lambda>v. False),
      removeUnloadedInternalModel = (\<lambda>a. True)\<rparr>"

text \<open>A control block for a post with id 1 and a title, in the state \<open>s\<close>, not materialized.\<close>

definition block :: "sid \<Rightarrow> attrs internal_model" where
  "block s =
     (new_InternalModel E0 ''post'' (Str ''1'') Null [(''title'', Str ''a'')])
       \<lparr>currentState := s\<rparr>"

definition world_of :: "attrs internal_model \<Rightarrow> attrs world" where
  "world_of m =
     \<lparr>im = m, TransitionChainMap = Map.empty, calls = [], destroyQueue = [],
      next_ref = 100, currentRunLoop = True, testing = False\<rparr>"

definition facade0 :: facade where
  "facade0 =
     \<lparr>fid = 50, f_currentState = 3, f_isError = False, f_adapterError = Null,
      f_options = [], f_isDestroyed = False, f_isDestroying = False\<rparr>"

text \<open>
  The world of the block in \<open>root.loaded.saved\<close> after an earlier transition from that
  state to \<open>updated.uncommitted\<close> stored its chain.
\<close>

definition w_hit :: "attrs world" where
  "w_hit =
     (world_of (block 3))\<lparr>TransitionChainMap :=
        Map.empty(transitionMapId G0 3 ''updated.uncommitted'' \<mapsto> chain_of G0 [4, 5])\<rparr>"

text \<open>
  A materialized block in \<open>root.loaded.saved\<close> with a live collection for \<open>comments\<close>
  (and its promise wrapper) and a retained one for \<open>tags\<close>.
\<close>

definition w_rel :: "attrs world" where
  "w_rel =
     world_of ((block 3)
       \<lparr>p_record := Some facade0,
        p_manyArrayCache := [(''comments'', 7)],
        p_retainedManyArrayCache := [(''tags'', 8)],
        p_relationshipPromisesCache := [(''comments'', \<lparr>pid = 9, has_destroy = True\<rparr>)]\<rparr>)"

text \<open>An unloaded block that waits for its scheduled check, with a retained collection.\<close>

definition w_pending :: "attrs world" where
  "w_pending =
     (world_of ((block 1)
        \<lparr>p_isDematerializing := True,
         p_scheduledDestroy := Some 99,
         p_retainedManyArrayCache := [(''tags'', 8)]\<rparr>))
       \<lparr>destroyQueue := [99]\<rparr>"

text \<open>A destroyed block.\<close>

definition w_destroyed :: "attrs world" where
  "w_destroyed = world_of ((block 1)\<lparr>p_isDestroyed := True, isDestroying := True\<rparr>)"

text \<open>A materialized block that was created on the client and has no id yet.\<close>

definition w_unsaved :: "attrs world" where
  "w_unsaved = world_of ((block 3)\<lparr>im_id := Null, p_record := Some facade0\<rparr>)"

text \<open>
  A block in \<open>root.loaded.saved\<close> that is not materialized and has a live collection for
  \<open>comments\<close>, and the same block once unloaded.
\<close>

definition w_bare :: "attrs world" where
  "w_bare = world_of ((block 3)\<lparr>p_manyArrayCache := [(''comments'', 7)]\<rparr>)"

definition w_bare_unloaded :: "attrs world" where
  "w_bare_unloaded =
     w_bare
       \<lparr>im := (im w_bare)
          \<lparr>p_isDematerializing := True, p_scheduledDestroy := Some 100, currentState := 1\<rparr>,
        calls := [HandlerCall 3 ''unloadRecord'' (Plain Undefined), RecordDidChange,
                  Schedule 100],
        destroyQueue := [100],
        next_ref := 101\<rparr>"

text \<open>
  A block in \<open>root.loaded.saved\<close> that was unloaded before and whose scheduled check is
  still pending, at a moment without a current run loop and outside testing mode.
\<close>

definition w_waiting :: "attrs world" where
  "w_waiting =
     (world_of ((block 3)\<lparr>p_isDematerializing := True, p_scheduledDestroy := Some 99\<rparr>))
       \<lparr>destroyQueue := [99], currentRunLoop := False\<rparr>"

section \<open>Lemmas on the transition\<close>

lemma split_from_nonempty: "split_from cur cs \<noteq> []"
  by (induction cs arbitrary: cur) auto

lemma splitOnDot_nonempty: "splitOnDot name \<noteq> []"
  by (simp add: splitOnDot_def split_from_nonempty)

lemma key_prefix:
  assumes "CHR ''>'' \<notin> set a"
  shows "takeWhile (\<lambda>c. c \<noteq> CHR ''>'') (a @ ''->'' @ n) = a @ ''-''"
  using assms by (simp add: takeWhile_append)

lemma key_inj:
  assumes "CHR ''>'' \<notin> set a" and "CHR ''>'' \<notin> set b"
    and "a @ ''->'' @ n = b @ ''->'' @ n0"
  shows "a = b \<and> n = n0"
proof -
  have "a @ ''-'' = b @ ''-''"
    using key_prefix [OF assms(1), of n] key_prefix [OF assms(2), of n0] assms(3) by simp
  then have "a = b" by simp
  with assms(3) show ?thesis by simp
qed

lemma transitionMapId_inj:
  assumes "wf_names G S" and "s \<in> set S" and "t \<in> set S"
    and "transitionMapId G s n = transitionMapId G t n0"
  shows "s = t \<and> n = n0"
proof -
  have 1: "CHR ''>'' \<notin> set (stateName (G s))" "CHR ''>'' \<notin> set (stateName (G t))"
    using assms(1-3) by (auto simp: wf_names_def)
  have "stateName (G s) = stateName (G t) \<and> n = n0"
    using key_inj [OF 1] assms(4) by (simp add: transitionMapId_def)
  with assms(1-3) show ?thesis by (auto simp: wf_names_def)
qed

lemma climbs_unique:
  "climbs G p s xs a \<Longrightarrow> climbs G p s ys b \<Longrightarrow> xs = ys \<and> a = b"
proof (induction G p s xs a arbitrary: ys rule: climbs.induct)
  case (1 G pivot s a)
  then show ?case by simp
next
  case (2 G pivot s x a)
  then show ?case by (cases ys; cases "tl ys") auto
next
  case (3 G pivot s x y ys' a)
  then show ?case by (cases ys; cases "tl ys") auto
qed

lemma climbs_hd: "climbs G p s xs a \<Longrightarrow> \<exists>ys. xs = s # ys"
  by (cases xs; cases "tl xs") auto

lemma call_hook_chains:
  "call_hook c h w = Inr w' \<Longrightarrow> TransitionChainMap w' = TransitionChainMap w"
  by (auto simp: call_hook_def split: sum.splits)

lemma exit_loop_climbs_aux:
  assumes "exit_loop G p s w = Some y"
  shows "\<forall>a w1. y = Inr (a, w1) \<longrightarrow> (\<exists>xs. climbs G p s xs a)"
proof (rule exit_loop.raw_induct
         [where P = "\<lambda>G p s w y. \<forall>a w1. y = Inr (a, w1) \<longrightarrow> (\<exists>xs. climbs G p s xs a)",
          OF _ assms])
  fix f :: "'a graph \<Rightarrow> string \<Rightarrow> sid \<Rightarrow> 'a world \<Rightarrow> (js_error + sid \<times> 'a world) option"
  fix G p s w y
  assume IH: "\<And>G p s w y. f G p s w = Some y \<Longrightarrow>
                \<forall>a w1. y = Inr (a, w1) \<longrightarrow> (\<exists>xs. climbs G p s xs a)"
  assume body:
    "(case (case exit_hook (G s) of None \<Rightarrow> Inr w | Some h \<Rightarrow> call_hook (ExitHook s) h w) of
        Inl e \<Rightarrow> Some (Inl e)
      | Inr w' \<Rightarrow>
          (case parentState (G s) of
             None \<Rightarrow> Some (Inl TypeError)
           | Some q \<Rightarrow>
               if map_of (children (G q)) p = None then f G p q w' else Some (Inr (q, w'))))
     = Some y"
  show "\<forall>a w1. y = Inr (a, w1) \<longrightarrow> (\<exists>xs. climbs G p s xs a)"
  proof (intro allI impI)
    fix a w1
    assume y: "y = Inr (a, w1)"
    from body y obtain w' q where
      q: "parentState (G s) = Some q"
      and r: "if map_of (children (G q)) p = None then f G p q w' = Some (Inr (a, w1))
              else q = a"
      by (auto split: sum.splits option.splits if_splits)
    show "\<exists>xs. climbs G p s xs a"
    proof (cases "map_of (children (G q)) p = None")
      case True
      with r have "f G p q w' = Some (Inr (a, w1))" by simp
      from IH [OF this] obtain xs where xs: "climbs G p q xs a" by blast
      then obtain ys where "xs = q # ys" using climbs_hd by blast
      with xs q True have "climbs G p s (s # q # ys) a" by simp
      then show ?thesis ..
    next
      case False
      with r q have "climbs G p s [s] a" by auto
      then show ?thesis ..
    qed
  qed
qed

lemma exit_loop_climbs:
  "exit_loop G p s w = Some (Inr (a, w1)) \<Longrightarrow> \<exists>xs. climbs G p s xs a"
  using exit_loop_climbs_aux by blast

lemma climbs_exit_loop:
  "climbs G p s xs a \<Longrightarrow>
   exit_loop G p s w = Some (bindE (invoke_hooks ExitHook exit_hook G xs w) (\<lambda>w1. Inr (a, w1)))"
proof (induction G p s xs a arbitrary: w rule: climbs.induct)
  case (1 G pivot s a)
  then show ?case by simp
next
  case (2 G pivot s x a)
  then show ?case
    by (subst exit_loop.simps)
       (auto simp: bindE_def call_hook_def split: option.splits sum.splits)
next
  case (3 G pivot s x y ys a)
  then show ?case
    by (subst exit_loop.simps)
       (auto simp: bindE_def call_hook_def split: option.splits sum.splits)
qed

lemma invoke_hooks_chains:
  "invoke_hooks c sel G ss w = Inr w' \<Longrightarrow> TransitionChainMap w' = TransitionChainMap w"
proof (induction ss arbitrary: w)
  case Nil
  then show ?case by simp
next
  case (Cons s ss)
  show ?case
  proof (cases "sel (G s)")
    case None
    with Cons show ?thesis by simp
  next
    case (Some h)
    with Cons.prems obtain m where m: "h (im w) = Inr m"
      and r: "invoke_hooks c sel G ss (w\<lparr>im := m, calls := calls w @ [c s]\<rparr>) = Inr w'"
      by (auto split: sum.splits)
    from Cons.IH [OF r] show ?thesis by simp
  qed
qed

lemma exit_loop_chains:
  assumes "exit_loop G p s w = Some (Inr (a, w1))"
  shows "TransitionChainMap w1 = TransitionChainMap w"
proof -
  from exit_loop_climbs [OF assms] obtain xs where "climbs G p s xs a" ..
  from climbs_exit_loop [OF this, of w] assms
  have "invoke_hooks ExitHook exit_hook G xs w = Inr w1"
    by (auto simp: bindE_def split: sum.splits)
  then show ?thesis by (rule invoke_hooks_chains)
qed

lemma descend_length: "descend G a path = Some nodes \<Longrightarrow> length nodes = length path"
  by (induction path arbitrary: a nodes) (auto split: option.splits)

lemma collect_descend:
  "descend G a path = Some nodes \<Longrightarrow>
   collect G path a sus ens =
     Inr \<lparr>setups = sus @ filter (\<lambda>s. setup_hook (G s) \<noteq> None) nodes,
          enters = ens @ filter (\<lambda>s. enter_hook (G s) \<noteq> None) nodes,
          state = last (a # nodes)\<rparr>"
proof (induction path arbitrary: a nodes sus ens)
  case Nil
  then show ?case by simp
next
  case (Cons seg path)
  then show ?case by (auto split: option.splits)
qed

lemma collect_chain_of:
  assumes "descend G a (splitOnDot name) = Some nodes"
  shows "collect G (splitOnDot name) a [] [] = Inr (chain_of G nodes)"
proof -
  have "nodes \<noteq> []"
    using descend_length [OF assms] splitOnDot_nonempty [of name] by auto
  then show ?thesis
    using collect_descend [OF assms, of "[]" "[]"] by (simp add: chain_of_def)
qed

lemma run_enters_filter:
  "run_enters G (filter (\<lambda>s. enter_hook (G s) \<noteq> None) nodes) w
     = invoke_hooks EnterHook enter_hook G nodes w"
proof (induction nodes arbitrary: w)
  case Nil
  then show ?case by simp
next
  case (Cons s nodes)
  then show ?case by (auto simp: bindE_def call_hook_def split: sum.splits)
qed

lemma run_setups_filter:
  "run_setups G (filter (\<lambda>s. setup_hook (G s) \<noteq> None) nodes) w
     = invoke_hooks SetupHook setup_hook G nodes w"
proof (induction nodes arbitrary: w)
  case Nil
  then show ?case by simp
next
  case (Cons s nodes)
  then show ?case by (auto simp: bindE_def call_hook_def split: sum.splits)
qed

lemma cache_sound:
  assumes "stored_chains G S c" and "wf_names G S" and "s \<in> set S"
    and "c (transitionMapId G s name) = Some m"
    and "climbs G (extractPivotName name) s xs a"
  shows "collect G (splitOnDot name) a [] [] = Inr m"
  using assms(1,3-5)
proof (induction rule: stored_chains.induct)
  case empty
  then show ?case by simp
next
  case (store c t n ys b m')
  show ?case
  proof (cases "transitionMapId G s name = transitionMapId G t n")
    case True
    with assms(2) store.prems(1) store.hyps(2) have eq: "s = t" "name = n"
      using transitionMapId_inj by blast+
    with store.prems(3) store.hyps(3) have "a = b"
      using climbs_unique by blast
    with eq store.hyps(4) store.prems(2) True show ?thesis by simp
  next
    case False
    with store show ?thesis by simp
  qed
qed


lemma call_hook_upd:
  "call_hook k h (w\<lparr>TransitionChainMap := c\<rparr>)
     = map_sum id (\<lambda>w. w\<lparr>TransitionChainMap := c\<rparr>) (call_hook k h w)"
  by (simp add: call_hook_def split: sum.splits)

lemma run_enters_upd:
  "run_enters G ss (w\<lparr>TransitionChainMap := c\<rparr>)
     = map_sum id (\<lambda>w. w\<lparr>TransitionChainMap := c\<rparr>) (run_enters G ss w)"
proof (induction ss arbitrary: w)
  case Nil
  then show ?case by simp
next
  case (Cons s ss)
  then show ?case
    by (cases "enter_hook (G s)"; simp add: bindE_def call_hook_upd split: sum.splits)
qed

lemma run_setups_upd:
  "run_setups G ss (w\<lparr>TransitionChainMap := c\<rparr>)
     = map_sum id (\<lambda>w. w\<lparr>TransitionChainMap := c\<rparr>) (run_setups G ss w)"
proof (induction ss arbitrary: w)
  case Nil
  then show ?case by simp
next
  case (Cons s ss)
  then show ?case
    by (cases "setup_hook (G s)"; simp add: bindE_def call_hook_upd split: sum.splits)
qed

lemma replay_forget:
  "map_sum id forget_chains (replay G m (w\<lparr>TransitionChainMap := c\<rparr>))
     = map_sum id forget_chains (replay G m w)"
proof -
  have upd: "\<And>w3 :: 'a world. (w3\<lparr>TransitionChainMap := c\<rparr>)\<lparr>im := set_currentState (state m) (im w3)\<rparr>
      = (w3\<lparr>im := set_currentState (state m) (im w3)\<rparr>)\<lparr>TransitionChainMap := c\<rparr>"
    by simp
  show ?thesis
    unfolding replay_def run_enters_upd
    by (cases "run_enters G (enters m) w")
       (auto simp: bindE_def upd run_setups_upd forget_chains_def updateRecordArrays_def
             simp del: world.update_convs split: sum.splits)
qed

lemma set_currentState_eq:
  "set_currentState t m
     = m\<lparr>currentState := t,
         p_record := map_option (\<lambda>r. r\<lparr>f_currentState := t\<rparr>) (p_record m)\<rparr>"
  by (cases "p_record m") (simp_all add: set_currentState_def)

lemma replay_chain_of:
  "replay G (chain_of G nodes) w =
     (case invoke_hooks EnterHook enter_hook G nodes w of
        Inl e \<Rightarrow> Inl e
      | Inr w2 \<Rightarrow>
          (case invoke_hooks SetupHook setup_hook G nodes
                  (w2\<lparr>im := (im w2)
                         \<lparr>currentState := last nodes,
                          p_record :=
                            map_option (\<lambda>r. r\<lparr>f_currentState := last nodes\<rparr>)
                              (p_record (im w2))\<rparr>\<rparr>) of
             Inl e \<Rightarrow> Inl e
           | Inr w3 \<Rightarrow> Inr (w3\<lparr>calls := calls w3 @ [RecordDidChange]\<rparr>)))"
  unfolding replay_def chain_of_def chain.select_convs run_enters_filter run_setups_filter
    set_currentState_eq bindE_def updateRecordArrays_def
  by (rule refl)

text \<open>
  The cache stays one of stored chains: a transition that returns leaves such a cache.
\<close>

lemma run_enters_chains:
  "run_enters G ss w = Inr w' \<Longrightarrow> TransitionChainMap w' = TransitionChainMap w"
proof (induction ss arbitrary: w)
  case Nil
  then show ?case by simp
next
  case (Cons s ss)
  then show ?case
    by (auto simp: bindE_def split: option.splits sum.splits dest: call_hook_chains)
qed

lemma run_setups_chains:
  "run_setups G ss w = Inr w' \<Longrightarrow> TransitionChainMap w' = TransitionChainMap w"
proof (induction ss arbitrary: w)
  case Nil
  then show ?case by simp
next
  case (Cons s ss)
  then show ?case
    by (auto simp: bindE_def split: option.splits sum.splits dest: call_hook_chains)
qed

lemma replay_chains:
  assumes "replay G m w = Inr w'"
  shows "TransitionChainMap w' = TransitionChainMap w"
proof -
  from assms obtain w3 w5 where 1: "run_enters G (enters m) w = Inr w3"
    and 2: "run_setups G (setups m) (w3\<lparr>im := set_currentState (state m) (im w3)\<rparr>) = Inr w5"
    and 3: "w' = updateRecordArrays w5"
    by (auto simp: replay_def bindE_def split: sum.splits)
  from run_enters_chains [OF 1] run_setups_chains [OF 2] 3 show ?thesis
    by (simp add: updateRecordArrays_def)
qed

lemma transitionTo_stores:
  assumes st: "stored_chains G S (TransitionChainMap w)"
    and cur: "currentState (im w) \<in> set S"
    and tr: "transitionTo G name w = Some (Inr w')"
  shows "stored_chains G S (TransitionChainMap w')"
proof -
  let ?key = "transitionMapId G (currentState (im w)) name"
  from tr obtain a w1 m w2 where
    ex: "exit_loop G (extractPivotName name) (currentState (im w)) w = Some (Inr (a, w1))"
    and pl: "plan G ?key name a w1 = Inr (m, w2)"
    and re: "replay G m w2 = Inr w'"
    by (auto simp: transitionTo_def Let_def bindE_def split: option.splits sum.splits)
  have cm: "TransitionChainMap w1 = TransitionChainMap w"
    using exit_loop_chains [OF ex] .
  from exit_loop_climbs [OF ex] obtain xs
    where cl: "climbs G (extractPivotName name) (currentState (im w)) xs a" ..
  have "stored_chains G S (TransitionChainMap w2)"
  proof (cases "TransitionChainMap w1 ?key")
    case None
    with pl have co: "collect G (splitOnDot name) a [] [] = Inr m"
      and w2: "TransitionChainMap w2 = (TransitionChainMap w1)(?key \<mapsto> m)"
      by (auto simp: plan_def bindE_def split: sum.splits)
    from stored_chains.store [OF st cur cl co] show ?thesis
      unfolding w2 cm .
  next
    case (Some m')
    with pl have "w2 = w1" by (simp add: plan_def)
    with st cm show ?thesis by simp
  qed
  with replay_chains [OF re] show ?thesis by simp
qed

section \<open>Lemmas on the many-array caches\<close>









lemma destroy_promises_caches:
  "p_manyArrayCache (im (destroy_promises ks w)) = p_manyArrayCache (im w)
   \<and> p_retainedManyArrayCache (im (destroy_promises ks w)) = p_retainedManyArrayCache (im w)
   \<and> p_record (im (destroy_promises ks w)) = p_record (im w)
   \<and> p_isDematerializing (im (destroy_promises ks w)) = p_isDematerializing (im w)
   \<and> p_isDestroyed (im (destroy_promises ks w)) = p_isDestroyed (im w)
   \<and> p_scheduledDestroy (im (destroy_promises ks w)) = p_scheduledDestroy (im w)
   \<and> destroyQueue (destroy_promises ks w) = destroyQueue w
   \<and> next_ref (destroy_promises ks w) = next_ref w
   \<and> currentRunLoop (destroy_promises ks w) = currentRunLoop w
   \<and> testing (destroy_promises ks w) = testing w"
  by (induction ks arbitrary: w) (auto split: option.splits)








section \<open>The small machine evaluated\<close>

lemma wf0: "wf_names G0 S0"
  by (simp add: wf_names_def S0_def G0_def plain_state_def)

lemma piv0: "extractPivotName ''updated.uncommitted'' = ''updated''"
  by (simp add: extractPivotName_def splitOnDot_def)

lemma split0: "splitOnDot ''updated.uncommitted'' = [''updated'', ''uncommitted'']"
  by (simp add: splitOnDot_def)

lemma climbs0: "climbs G0 ''updated'' 3 [3] 2"
  by (simp add: G0_def plain_state_def)

lemma descend0: "descend G0 2 [''updated'', ''uncommitted''] = Some [4, 5]"
  by (simp add: G0_def plain_state_def)

lemma stored0: "stored_chains G0 S0 (TransitionChainMap w_hit)"
proof -
  have co: "collect G0 (splitOnDot ''updated.uncommitted'') 2 [] [] = Inr (chain_of G0 [4, 5])"
  proof (rule collect_chain_of)
    show "descend G0 2 (splitOnDot ''updated.uncommitted'') = Some [4, 5]"
      unfolding split0 by (rule descend0)
  qed
  have s3: "3 \<in> set S0" by (simp add: S0_def)
  have cl: "climbs G0 (extractPivotName ''updated.uncommitted'') 3 [3] 2"
    unfolding piv0 by (rule climbs0)
  from stored_chains.store [OF stored_chains.empty s3 cl co]
  show ?thesis by (simp add: w_hit_def)
qed

section \<open>Lemmas on unloading and destruction\<close>

lemma send_frame:
  assumes "send E G name ctx w = Inr (r, w1)"
  shows "calls w1 = calls w @ [HandlerCall (currentState (im w)) name ctx]
       \<and> destroyQueue w1 = destroyQueue w \<and> next_ref w1 = next_ref w
       \<and> currentRunLoop w1 = currentRunLoop w \<and> testing w1 = testing w
       \<and> TransitionChainMap w1 = TransitionChainMap w"
  using assms by (auto simp: send_def Let_def split: option.splits sum.splits)

lemma retain_manyArrays_frame:
  "p_record (retain_manyArrays ks m) = p_record m
   \<and> p_scheduledDestroy (retain_manyArrays ks m) = p_scheduledDestroy m
   \<and> p_isDematerializing (retain_manyArrays ks m) = p_isDematerializing m
   \<and> p_isDestroyed (retain_manyArrays ks m) = p_isDestroyed m"
  by (induction ks arbitrary: m) (auto split: option.splits)

lemma filter_fst_neq:
  "map_of al key = None \<Longrightarrow> filter (\<lambda>p. fst p \<noteq> key \<and> P p) al = filter P al"
  by (induction al) (auto split: if_splits)

lemma retain_manyArrays_active:
  "p_manyArrayCache (retain_manyArrays ks m)
     = filter (\<lambda>p. fst p \<notin> set ks) (p_manyArrayCache m)"
proof (induction ks arbitrary: m)
  case Nil
  then show ?case by simp
next
  case (Cons key ks)
  show ?case
  proof (cases "map_of (p_manyArrayCache m) key")
    case None
    then show ?thesis
      using Cons.IH [of m] filter_fst_neq [of "p_manyArrayCache m" key "\<lambda>p. fst p \<notin> set ks"]
      by simp
  next
    case (Some a)
    then show ?thesis
      using Cons.IH
      by (simp add: AList.delete_eq case_prod_unfold) (rule filter_cong, auto)
  qed
qed

lemma retain_manyArrays_all:
  "p_manyArrayCache (retain_manyArrays (keys (p_manyArrayCache m)) m) = []"
  by (simp add: retain_manyArrays_active keys_def)

lemma retain_manyArrays_retained:
  "map_of (p_retainedManyArrayCache (retain_manyArrays ks m)) k
     = (if k \<in> set ks
        then (case map_of (p_manyArrayCache m) k of
                Some a \<Rightarrow> Some a
              | None \<Rightarrow> map_of (p_retainedManyArrayCache m) k)
        else map_of (p_retainedManyArrayCache m) k)"
proof (induction ks arbitrary: m)
  case Nil
  then show ?case by simp
next
  case (Cons key ks)
  show ?case
  proof (cases "map_of (p_manyArrayCache m) key")
    case None
    then show ?thesis using Cons.IH [of m] by auto
  next
    case (Some a)
    then show ?thesis
      using Cons.IH by (auto simp: update_conv' delete_conv' split: option.splits)
  qed
qed

lemma retain_manyArrays_keeps:
  assumes "map_of (p_manyArrayCache m) k = Some a"
  shows "map_of (p_retainedManyArrayCache (retain_manyArrays (keys (p_manyArrayCache m)) m)) k
           = Some a"
proof -
  have "k \<in> set (keys (p_manyArrayCache m))"
    using assms by (auto simp: keys_def dest: map_of_SomeD intro: rev_image_eqI)
  with assms show ?thesis by (simp add: retain_manyArrays_retained)
qed

lemma destroy_promises_calls: "prefix (calls w) (calls (destroy_promises ks w))"
proof (induction ks arbitrary: w)
  case Nil
  then show ?case by simp
next
  case (Cons key ks)
  show ?case
  proof (cases "map_of (p_relationshipPromisesCache (im w)) key")
    case None
    then show ?thesis using Cons.IH [of w] by simp
  next
    case (Some p)
    let ?w' = "w\<lparr>im := (im w)\<lparr>p_relationshipPromisesCache :=
                   AList.delete key (p_relationshipPromisesCache (im w))\<rparr>,
              calls := (if has_destroy p then calls w @ [PromiseDestroy (pid p)]
                        else calls w)\<rparr>"
    have "prefix (calls w) (calls ?w')" by simp
    moreover have "prefix (calls ?w') (calls (destroy_promises ks ?w'))" by (rule Cons.IH)
    ultimately have "prefix (calls w) (calls (destroy_promises ks ?w'))"
      by (rule prefix_order.trans)
    with Some show ?thesis by simp
  qed
qed

lemma dematerializeRecord_frame:
  "p_scheduledDestroy (im (dematerializeRecord E w)) = p_scheduledDestroy (im w)
   \<and> destroyQueue (dematerializeRecord E w) = destroyQueue w
   \<and> next_ref (dematerializeRecord E w) = next_ref w
   \<and> currentRunLoop (dematerializeRecord E w) = currentRunLoop w
   \<and> testing (dematerializeRecord E w) = testing w
   \<and> p_record (im (dematerializeRecord E w)) = None
   \<and> p_isDematerializing (im (dematerializeRecord E w))
   \<and> currentState (im (dematerializeRecord E w)) = rootEmpty E"
  by (cases "p_record (im w)")
     (simp_all add: dematerializeRecord_def Let_def resetRecord_def updateRecordArrays_def
        destroy_promises_caches retain_manyArrays_frame)

lemma dematerializeRecord_calls:
  "prefix (calls w) (calls (dematerializeRecord E w))"
proof (cases "p_record (im w)")
  case None
  then show ?thesis
    by (simp add: dematerializeRecord_def Let_def updateRecordArrays_def)
next
  case (Some f)
  let ?w0 = "w\<lparr>im := (im w)\<lparr>p_isDematerializing := True, p_doNotDestroy := False\<rparr>\<rparr>"
  let ?wa = "destroy_promises (keys (p_relationshipPromisesCache (im ?w0))) ?w0"
  have "prefix (calls ?w0) (calls ?wa)" by (rule destroy_promises_calls)
  then have "prefix (calls w) (calls ?wa @ [FacadeDestroy (fid f), RecordDidChange])"
    by (simp add: prefix_prefix)
  with Some show ?thesis
    by (simp add: dematerializeRecord_def Let_def updateRecordArrays_def)
qed

lemma dematerializeRecord_facade:
  assumes "p_record (im w) = Some f"
  shows "FacadeDestroy (fid f) \<in> set (calls (dematerializeRecord E w))
       \<and> p_manyArrayCache (im (dematerializeRecord E w)) = []
       \<and> (\<forall>k a. map_of (p_manyArrayCache (im w)) k = Some a \<longrightarrow>
             map_of (p_retainedManyArrayCache (im (dematerializeRecord E w))) k = Some a)"
proof -
  let ?w0 = "w\<lparr>im := (im w)\<lparr>p_isDematerializing := True, p_doNotDestroy := False\<rparr>\<rparr>"
  let ?wa = "destroy_promises (keys (p_relationshipPromisesCache (im ?w0))) ?w0"
  let ?m = "retain_manyArrays (keys (p_manyArrayCache (im ?wa))) (im ?wa)"
  have a: "p_manyArrayCache (im ?wa) = p_manyArrayCache (im w)"
    by (simp add: destroy_promises_caches)
  have 1: "p_manyArrayCache ?m = []" by (rule retain_manyArrays_all)
  have 2: "\<forall>k a. map_of (p_manyArrayCache (im w)) k = Some a \<longrightarrow>
             map_of (p_retainedManyArrayCache ?m) k = Some a"
    using retain_manyArrays_keeps [of "im ?wa"] unfolding a by blast
  have 3: "p_manyArrayCache (im (dematerializeRecord E w)) = p_manyArrayCache ?m
         \<and> p_retainedManyArrayCache (im (dematerializeRecord E w)) = p_retainedManyArrayCache ?m
         \<and> calls (dematerializeRecord E w) = calls ?wa @ [FacadeDestroy (fid f), RecordDidChange]"
    using assms
    by (simp add: dematerializeRecord_def Let_def resetRecord_def updateRecordArrays_def)
  from 1 2 3 show ?thesis by simp
qed

lemma destroy_retained_retained:
  "p_retainedManyArrayCache (im (destroy_retained ks w))
     = filter (\<lambda>p. fst p \<notin> set ks) (p_retainedManyArrayCache (im w))"
proof (induction ks arbitrary: w)
  case Nil
  then show ?case by simp
next
  case (Cons key ks)
  show ?case
  proof (cases "map_of (p_retainedManyArrayCache (im w)) key")
    case None
    then show ?thesis
      using Cons.IH [of w]
        filter_fst_neq [of "p_retainedManyArrayCache (im w)" key "\<lambda>p. fst p \<notin> set ks"]
      by simp
  next
    case (Some a)
    then show ?thesis
      using Cons.IH
      by (simp add: AList.delete_eq case_prod_unfold) (rule filter_cong, auto)
  qed
qed

lemma destroy_retained_frame:
  "p_record (im (destroy_retained ks w)) = p_record (im w)
   \<and> isDestroying (im (destroy_retained ks w)) = isDestroying (im w)
   \<and> p_isDestroyed (im (destroy_retained ks w)) = p_isDestroyed (im w)"
  by (induction ks arbitrary: w) (auto split: option.splits)

lemma destroy_effect:
  assumes "destroy w = Inr w'"
  shows "isDestroyed (im w') \<and> isDestroying (im w')
       \<and> p_retainedManyArrayCache (im w') = []
       \<and> RemoveFromIdMap \<in> set (calls w')"
proof -
  let ?w1 = "w\<lparr>im := (im w)\<lparr>isDestroying := True\<rparr>\<rparr>"
  let ?w2 = "destroy_retained (keys (p_retainedManyArrayCache (im ?w1))) ?w1"
  have w': "w' = (?w2\<lparr>calls := calls ?w2 @ [RemoveFromIdMap]\<rparr>)
               \<lparr>im := (im ?w2)\<lparr>p_isDestroyed := True\<rparr>\<rparr>"
    using assms by (auto simp: destroy_def Let_def split: if_splits)
  have "p_retainedManyArrayCache (im ?w2) = []"
    by (simp add: destroy_retained_retained keys_def)
  moreover have "isDestroying (im ?w2)"
    by (simp add: destroy_retained_frame)
  ultimately show ?thesis unfolding w' by (simp add: isDestroyed_def)
qed

lemma dematerializeRecord_nofacade:
  assumes "p_record (im w) = None"
  shows "p_manyArrayCache (im (dematerializeRecord E w)) = p_manyArrayCache (im w)
       \<and> p_retainedManyArrayCache (im (dematerializeRecord E w))
           = p_retainedManyArrayCache (im w)"
  using assms
  by (simp add: dematerializeRecord_def Let_def resetRecord_def updateRecordArrays_def)

section \<open>The claims\<close>

subsection \<open>Transitions\<close>

text \<open>
  C1. In a machine whose states are addressed by their names, with a cache that holds
  only chains stored by earlier walks, a transition of a control block to a target path
  does what section 4.1 of the specification lists, in that order. Let \<open>xs\<close> be the states
  from the current one upward whose parent chain ends below the first ancestor \<open>a\<close> that
  has the pivot segment among its children, and \<open>nodes\<close> the states visited from \<open>a\<close>
  down along the path. Then \<^verbatim>\<open>transitionTo\<close> returns, and what it returns is the outcome
  of these steps: each state of \<open>xs\<close> that defines \<^verbatim>\<open>exit\<close> has it run on the control
  block, upward; each node that defines \<^verbatim>\<open>enter\<close> has it run, root to leaf; the last node
  becomes the current state of the control block and of its facade, when it has one;
  each node that defines \<^verbatim>\<open>setup\<close> has it run, root to leaf; the membership tracker is
  called. Every hook finds the control block as the step before left it, and a hook
  that throws ends the transition with its error. Only the entry written into the cache
  is left out of the comparison.
\<close>

theorem transitionTo_order:
  assumes wf: "wf_names G S"
    and st: "stored_chains G S (TransitionChainMap w)"
    and cur: "currentState (im w) \<in> set S"
    and cl: "climbs G (extractPivotName name) (currentState (im w)) xs a"
    and de: "descend G a (splitOnDot name) = Some nodes"
  shows "observe (transitionTo G name w) = observe (Some (transition_steps G xs nodes w))"
proof -
  have ex: "exit_loop G (extractPivotName name) (currentState (im w)) w
      = Some (bindE (invoke_hooks ExitHook exit_hook G xs w) (\<lambda>w1. Inr (a, w1)))"
    using climbs_exit_loop [OF cl] .
  have co: "collect G (splitOnDot name) a [] [] = Inr (chain_of G nodes)"
    using collect_chain_of [OF de] .
  let ?key = "transitionMapId G (currentState (im w)) name"
  show ?thesis
  proof (cases "invoke_hooks ExitHook exit_hook G xs w")
    case (Inl e)
    with ex show ?thesis
      by (simp add: transitionTo_def transition_steps_def bindE_def observe_def)
  next
    case (Inr w1)
    have cm: "TransitionChainMap w1 = TransitionChainMap w"
      using invoke_hooks_chains [OF Inr] .
    have steps: "transition_steps G xs nodes w = replay G (chain_of G nodes) w1"
      using Inr by (simp add: transition_steps_def replay_chain_of)
    show ?thesis
    proof (cases "TransitionChainMap w ?key")
      case None
      with Inr ex cm co show ?thesis
        unfolding steps
        by (simp add: transitionTo_def bindE_def observe_def plan_def replay_forget)
    next
      case (Some m)
      have "collect G (splitOnDot name) a [] [] = Inr m"
        using cache_sound [OF st wf cur Some cl] .
      with co have "m = chain_of G nodes" by simp
      with Some Inr ex cm show ?thesis
        unfolding steps
        by (simp add: transitionTo_def bindE_def observe_def plan_def)
    qed
  qed
qed

theorem transitionTo_order_witness:
  "wf_names G0 S0 \<and> climbs G0 ''updated'' 3 [3] 2
   \<and> descend G0 2 [''updated'', ''uncommitted''] = Some [4, 5]
   \<and> p_record (im w_rel) = Some facade0 \<and> f_currentState facade0 = 3
   \<and> (\<exists>w'. observe (transitionTo G0 ''updated.uncommitted'' w_rel) = Some (Inr w')
         \<and> calls w' = [ExitHook 3, EnterHook 4, SetupHook 5, RecordDidChange]
         \<and> p_deferredTriggers (im w')
             = [[Str ''left saved'', Num 3, Num 3],
                [Str ''dirty'', Num 3, Num 3],
                [Str ''uncommitted'', Num 5, Num 5]]
         \<and> currentState (im w') = 5
         \<and> p_record (im w') = Some (facade0\<lparr>f_currentState := 5\<rparr>))"
proof -
  have st: "stored_chains G0 S0 (TransitionChainMap w_rel)"
    by (simp add: w_rel_def world_of_def stored_chains.empty)
  have cur: "currentState (im w_rel) \<in> set S0"
    by (simp add: w_rel_def world_of_def block_def S0_def)
  have "currentState (im w_rel) = 3"
    by (simp add: w_rel_def world_of_def block_def)
  then have cl: "climbs G0 (extractPivotName ''updated.uncommitted'')
              (currentState (im w_rel)) [3] 2"
    unfolding piv0 using climbs0 by simp
  have de: "descend G0 2 (splitOnDot ''updated.uncommitted'') = Some [4, 5]"
    unfolding split0 by (rule descend0)
  have fa: "p_record (im w_rel) = Some facade0" "f_currentState facade0 = 3"
    by (simp_all add: w_rel_def world_of_def block_def facade0_def)
  have "\<exists>w'. observe (Some (transition_steps G0 [3] [4, 5] w_rel)) = Some (Inr w')
         \<and> calls w' = [ExitHook 3, EnterHook 4, SetupHook 5, RecordDidChange]
         \<and> p_deferredTriggers (im w')
             = [[Str ''left saved'', Num 3, Num 3],
                [Str ''dirty'', Num 3, Num 3],
                [Str ''uncommitted'', Num 5, Num 5]]
         \<and> currentState (im w') = 5
         \<and> p_record (im w') = Some (facade0\<lparr>f_currentState := 5\<rparr>)"
    by (simp add: transition_steps_def G0_def plain_state_def
          w_rel_def world_of_def block_def new_InternalModel_def resetRecord_def E0_def
          note_hook_def observe_def forget_chains_def facade0_def)
  with transitionTo_order [OF wf0 st cur cl de]
  have "\<exists>w'. observe (transitionTo G0 ''updated.uncommitted'' w_rel) = Some (Inr w')
         \<and> calls w' = [ExitHook 3, EnterHook 4, SetupHook 5, RecordDidChange]
         \<and> p_deferredTriggers (im w')
             = [[Str ''left saved'', Num 3, Num 3],
                [Str ''dirty'', Num 3, Num 3],
                [Str ''uncommitted'', Num 5, Num 5]]
         \<and> currentState (im w') = 5
         \<and> p_record (im w') = Some (facade0\<lparr>f_currentState := 5\<rparr>)"
    by simp
  with wf0 climbs0 descend0 fa show ?thesis by blast
qed

text \<open>
  C2. In a machine whose states are addressed by their names, with a cache that holds
  only chains stored by earlier walks, \<^verbatim>\<open>transitionTo\<close> and its variant without the cache
  agree on every current state and target path: both run forever, or both throw the
  same error, or both return, with the same control block (and so the same terminal
  state) and the same sequence of hook invocations and collaborator calls in the log.
  The worlds differ at most in the cache itself.
\<close>

theorem transitionTo_cache_transparent:
  assumes wf: "wf_names G S"
    and st: "stored_chains G S (TransitionChainMap w)"
    and cur: "currentState (im w) \<in> set S"
  shows "observe (transitionTo G name w) = observe (transitionTo_uncached G name w)"
proof (cases "exit_loop G (extractPivotName name) (currentState (im w)) w")
  case None
  then show ?thesis by (simp add: transitionTo_def transitionTo_uncached_def)
next
  case (Some r)
  show ?thesis
  proof (cases r)
    case (Inl e)
    with Some show ?thesis
      by (simp add: transitionTo_def transitionTo_uncached_def bindE_def)
  next
    case (Inr p)
    obtain a w1 where p: "p = (a, w1)" by (cases p)
    with Some Inr have ex: "exit_loop G (extractPivotName name) (currentState (im w)) w
        = Some (Inr (a, w1))" by simp
    have cm: "TransitionChainMap w1 = TransitionChainMap w"
      using exit_loop_chains [OF ex] .
    from exit_loop_climbs [OF ex] obtain xs
      where cl: "climbs G (extractPivotName name) (currentState (im w)) xs a" ..
    let ?key = "transitionMapId G (currentState (im w)) name"
    show ?thesis
    proof (cases "TransitionChainMap w ?key")
      case None
      show ?thesis
      proof (cases "collect G (splitOnDot name) a [] []")
        case (Inl e)
        with None cm ex show ?thesis
          by (simp add: transitionTo_def transitionTo_uncached_def bindE_def plan_def)
      next
        case (Inr m)
        with None cm ex show ?thesis
          by (simp add: transitionTo_def transitionTo_uncached_def bindE_def plan_def
                observe_def replay_forget)
      qed
    next
      case (Some m)
      have "collect G (splitOnDot name) a [] [] = Inr m"
        using cache_sound [OF st wf cur Some cl] .
      with Some cm ex show ?thesis
        by (simp add: transitionTo_def transitionTo_uncached_def bindE_def plan_def)
    qed
  qed
qed

theorem transitionTo_cache_transparent_witness:
  "wf_names G0 S0 \<and> stored_chains G0 S0 (TransitionChainMap w_hit)
   \<and> TransitionChainMap w_hit (transitionMapId G0 3 ''updated.uncommitted'')
        = Some (chain_of G0 [4, 5])
   \<and> observe (transitionTo G0 ''updated.uncommitted'' w_hit)
        = observe (transitionTo_uncached G0 ''updated.uncommitted'' w_hit)
   \<and> (\<exists>w'. observe (transitionTo_uncached G0 ''updated.uncommitted'' w_hit) = Some (Inr w')
         \<and> calls w' = [ExitHook 3, EnterHook 4, SetupHook 5, RecordDidChange]
         \<and> currentState (im w') = 5)"
proof -
  have cur: "currentState (im w_hit) \<in> set S0"
    by (simp add: w_hit_def world_of_def block_def S0_def)
  have ev: "\<exists>w'. observe (transitionTo_uncached G0 ''updated.uncommitted'' w_hit) = Some (Inr w')
         \<and> calls w' = [ExitHook 3, EnterHook 4, SetupHook 5, RecordDidChange]
         \<and> currentState (im w') = 5"
    by (simp add: transitionTo_uncached_def piv0 split0 exit_loop.simps w_hit_def
          replay_def G0_def plain_state_def bindE_def call_hook_def
          world_of_def block_def new_InternalModel_def resetRecord_def E0_def note_hook_def
          set_currentState_def updateRecordArrays_def observe_def forget_chains_def)
  have hit: "TransitionChainMap w_hit (transitionMapId G0 3 ''updated.uncommitted'')
        = Some (chain_of G0 [4, 5])"
    by (simp add: w_hit_def)
  from transitionTo_cache_transparent [OF wf0 stored0 cur, of "''updated.uncommitted''"]
    wf0 stored0 hit ev
  show ?thesis by blast
qed

subsection \<open>The many-array caches\<close>




subsection \<open>Event dispatch\<close>

text \<open>
  C4. When the current state has no handler for the event, \<^verbatim>\<open>send\<close> throws an
  \<^verbatim>\<open>EmberError\<close> whose message contains the name of the current state, the name of the
  event and, when a context was passed, the context as \<^verbatim>\<open>inspect\<close> prints it. When the
  state has a handler, \<^verbatim>\<open>send\<close> calls it with the control block and the context: it
  throws what the handler throws, and otherwise returns the handler's result with the
  control block as the handler left it.
\<close>

theorem send_dispatch:
  "(map_of (handlers (G (currentState (im w)))) name = None \<longrightarrow>
      (\<exists>msg. send E G name ctx w = Inl (EmberError msg)
          \<and> sublist (stateName (G (currentState (im w)))) msg
          \<and> sublist name msg
          \<and> (ctx \<noteq> Plain Undefined \<longrightarrow> sublist (inspect E ctx) msg)))
   \<and> (\<forall>h. map_of (handlers (G (currentState (im w)))) name = Some h \<longrightarrow>
        (\<forall>e. h (im w) ctx = Inl e \<longrightarrow> send E G name ctx w = Inl e)
      \<and> (\<forall>v m. h (im w) ctx = Inr (v, m) \<longrightarrow>
            send E G name ctx w
              = Inr (v, w\<lparr>im := m,
                          calls := calls w @ [HandlerCall (currentState (im w)) name ctx]\<rparr>)))"
proof (intro conjI allI impI)
  assume none: "map_of (handlers (G (currentState (im w)))) name = None"
  let ?msg = "''Attempted to handle event `'' @ name @ ''` ''
        @ ''on '' @ toString (im w) @ '' while in state ''
        @ stateName (G (currentState (im w))) @ ''. ''
        @ (if ctx \<noteq> Plain Undefined then ''Called with '' @ inspect E ctx @ ''.'' else [])"
  have 1: "send E G name ctx w = Inl (EmberError ?msg)"
    using none by (simp add: send_def unhandledEvent_def Let_def)
  have 2: "sublist (stateName (G (currentState (im w)))) ?msg"
    unfolding sublist_def
    by (rule exI [of _ "''Attempted to handle event `'' @ name @ ''` ''
          @ ''on '' @ toString (im w) @ '' while in state ''"],
        rule exI [of _ "''. '' @ (if ctx \<noteq> Plain Undefined
                                  then ''Called with '' @ inspect E ctx @ ''.'' else [])"],
        simp)
  have 3: "sublist name ?msg"
    unfolding sublist_def
    by (rule exI [of _ "''Attempted to handle event `''"],
        rule exI [of _ "''` '' @ ''on '' @ toString (im w) @ '' while in state ''
          @ stateName (G (currentState (im w))) @ ''. ''
          @ (if ctx \<noteq> Plain Undefined then ''Called with '' @ inspect E ctx @ ''.'' else [])"],
        simp)
  have 4: "ctx \<noteq> Plain Undefined \<longrightarrow> sublist (inspect E ctx) ?msg"
  proof
    assume c: "ctx \<noteq> Plain Undefined"
    show "sublist (inspect E ctx) ?msg"
      unfolding sublist_def
      by (rule exI [of _ "''Attempted to handle event `'' @ name @ ''` ''
            @ ''on '' @ toString (im w) @ '' while in state ''
            @ stateName (G (currentState (im w))) @ ''. '' @ ''Called with ''"],
          rule exI [of _ "''.''"], simp add: c)
  qed
  from 1 2 3 4
  show "\<exists>msg. send E G name ctx w = Inl (EmberError msg)
          \<and> sublist (stateName (G (currentState (im w)))) msg
          \<and> sublist name msg
          \<and> (ctx \<noteq> Plain Undefined \<longrightarrow> sublist (inspect E ctx) msg)"
    by blast
next
  fix h e
  assume "map_of (handlers (G (currentState (im w)))) name = Some h" and "h (im w) ctx = Inl e"
  then show "send E G name ctx w = Inl e" by (simp add: send_def Let_def)
next
  fix h v m
  assume "map_of (handlers (G (currentState (im w)))) name = Some h"
    and "h (im w) ctx = Inr (v, m)"
  then show "send E G name ctx w
      = Inr (v, w\<lparr>im := m, calls := calls w @ [HandlerCall (currentState (im w)) name ctx]\<rparr>)"
    by (simp add: send_def Let_def)
qed

theorem send_dispatch_witness:
  "send E0 G0 ''willCommit'' (Plain (Str ''now'')) (world_of (block 3))
     = Inl (EmberError
         ''Attempted to handle event `willCommit` on <post:1> while in state root.loaded.saved. Called with now.'')
   \<and> sublist ''root.loaded.saved''
        ''Attempted to handle event `willCommit` on <post:1> while in state root.loaded.saved. Called with now.''
   \<and> send E0 G0 ''unloadRecord'' (Plain Undefined) (world_of (block 3))
       = Inr (Undefined,
           (world_of (block 3))\<lparr>calls := [HandlerCall 3 ''unloadRecord'' (Plain Undefined)]\<rparr>)"
proof -
  have s: "stateName (G0 (currentState (im (world_of (block 3))))) = ''root.loaded.saved''"
    by (simp add: world_of_def block_def G0_def plain_state_def)
  have n: "map_of (handlers (G0 (currentState (im (world_of (block 3)))))) ''willCommit'' = None"
    by (simp add: world_of_def block_def G0_def plain_state_def)
  have e: "send E0 G0 ''willCommit'' (Plain (Str ''now'')) (world_of (block 3))
     = Inl (EmberError
         ''Attempted to handle event `willCommit` on <post:1> while in state root.loaded.saved. Called with now.'')"
    by (simp add: send_def unhandledEvent_def Let_def world_of_def block_def G0_def
          plain_state_def toString_def new_InternalModel_def resetRecord_def E0_def)
  have h: "map_of (handlers (G0 (currentState (im (world_of (block 3)))))) ''unloadRecord''
      = Some quiet_handler"
    by (simp add: world_of_def block_def G0_def plain_state_def)
  have q: "quiet_handler (im (world_of (block 3))) (Plain Undefined)
      = Inr (Undefined, im (world_of (block 3)))"
    by (simp add: quiet_handler_def)
  have c: "currentState (im (world_of (block 3))) = 3"
    by (simp add: world_of_def block_def)
  from send_dispatch [of G0 "world_of (block 3)" "''willCommit''" E0 "Plain (Str ''now'')"] n e s
  have 1: "sublist ''root.loaded.saved''
        ''Attempted to handle event `willCommit` on <post:1> while in state root.loaded.saved. Called with now.''"
    by auto
  from send_dispatch [of G0 "world_of (block 3)" "''unloadRecord''" E0 "Plain Undefined"] h q c
  have 2: "send E0 G0 ''unloadRecord'' (Plain Undefined) (world_of (block 3))
       = Inr (Undefined,
           (world_of (block 3))\<lparr>calls := [HandlerCall 3 ''unloadRecord'' (Plain Undefined)]\<rparr>)"
    by (simp add: world_of_def)
  from e 1 2 show ?thesis by blast
qed

subsection \<open>Identity\<close>

text \<open>
  C5. \<^verbatim>\<open>setId(id)\<close> throws (the failed assertion that is the identity conflict) unless
  the current id is \<^verbatim>\<open>null\<close>, or equal to the given id, or the current state is a new
  one. Otherwise it stores the id, and it notifies the facade's \<^verbatim>\<open>id\<close> property exactly
  when the id changed and a facade is materialized: with an unchanged id, or with no
  facade, it makes no call.
\<close>

theorem setId_identity:
  "(\<not> (im_id (im w) = Null \<or> im_id (im w) = i \<or> isNew G (im w)) \<longrightarrow>
      (\<exists>msg. setId G i w = Inl (AssertionFailed msg)))
   \<and> (im_id (im w) = Null \<or> im_id (im w) = i \<or> isNew G (im w) \<longrightarrow>
        setId G i w
          = Inr (w\<lparr>im := (im w)\<lparr>im_id := i\<rparr>,
                   calls := calls w @
                     (case p_record (im w) of
                        None \<Rightarrow> []
                      | Some r \<Rightarrow>
                          if i \<noteq> im_id (im w)
                          then [FacadeNotifyPropertyChange (fid r) ''id'']
                          else [])\<rparr>))"
  by (auto simp add: setId_def Let_def split: option.splits)

theorem setId_identity_witness:
  "setId G0 (Str ''5'') w_unsaved
     = Inr (w_unsaved\<lparr>im := (im w_unsaved)\<lparr>im_id := Str ''5''\<rparr>,
                      calls := [FacadeNotifyPropertyChange 50 ''id'']\<rparr>)
   \<and> (\<exists>msg. setId G0 (Str ''6'')
               (w_unsaved\<lparr>im := (im w_unsaved)\<lparr>im_id := Str ''5''\<rparr>,
                          calls := [FacadeNotifyPropertyChange 50 ''id'']\<rparr>)
             = Inl (AssertionFailed msg))
   \<and> setId G0 (Str ''5'')
        (w_unsaved\<lparr>im := (im w_unsaved)\<lparr>im_id := Str ''5''\<rparr>,
                   calls := [FacadeNotifyPropertyChange 50 ''id'']\<rparr>)
       = Inr (w_unsaved\<lparr>im := (im w_unsaved)\<lparr>im_id := Str ''5''\<rparr>,
                        calls := [FacadeNotifyPropertyChange 50 ''id'']\<rparr>)"
proof -
  let ?w' = "w_unsaved\<lparr>im := (im w_unsaved)\<lparr>im_id := Str ''5''\<rparr>,
                      calls := [FacadeNotifyPropertyChange 50 ''id'']\<rparr>"
  have a: "im_id (im w_unsaved) = Null" "calls w_unsaved = []"
      "p_record (im w_unsaved) = Some facade0" "fid facade0 = 50"
    by (simp_all add: w_unsaved_def world_of_def block_def facade0_def)
  have b: "\<not> isNew G0 (im ?w')"
    by (simp add: isNew_def w_unsaved_def world_of_def block_def G0_def plain_state_def)
  from setId_identity [of w_unsaved "Str ''5''" G0] a
  have 1: "setId G0 (Str ''5'') w_unsaved = Inr ?w'" by simp
  from setId_identity [of ?w' "Str ''6''" G0] b
  have 2: "\<exists>msg. setId G0 (Str ''6'') ?w' = Inl (AssertionFailed msg)" by simp
  from setId_identity [of ?w' "Str ''5''" G0] a
  have 3: "setId G0 (Str ''5'') ?w' = Inr ?w'" by simp
  from 1 2 3 show ?thesis by blast
qed

subsection \<open>Staged attributes\<close>

text \<open>
  C6, as claimed: \<^verbatim>\<open>setDirtyAttribute\<close> is a no-op whenever the value equals the stored
  one. It is not: the test for a deleted state comes first in the source, so on a
  deleted block the call throws also when the value is the stored one.
\<close>

theorem setDirtyAttribute_noop_counterexample:
  "getAttr E0 (p_modelData (im (world_of (block 7)))) ''title'' = Str ''a''
   \<and> setDirtyAttribute E0 G0 ''title'' (Str ''a'') (world_of (block 7))
        \<noteq> Inr (Str ''a'', world_of (block 7))
   \<and> setDirtyAttribute E0 G0 ''title'' (Str ''a'') (world_of (block 7))
        = Inl (EmberError
            (''Attempted to set '' @ apostrophe @ ''title'' @ apostrophe @ '' to ''
             @ apostrophe @ ''a'' @ apostrophe @ '' on the deleted record <post:1>''))"
  by (simp add: setDirtyAttribute_def isDeleted_def world_of_def block_def G0_def
        plain_state_def E0_def new_InternalModel_def resetRecord_def toString_def)

text \<open>
  C6, amended. On a block in a deleted state \<^verbatim>\<open>setDirtyAttribute\<close> throws an
  \<^verbatim>\<open>EmberError\<close>, whatever the value. On any other block it returns the value and changes
  nothing when the value equals the stored one, and otherwise it stages the value in
  the model data and sends \<^verbatim>\<open>didSetProperty\<close> with the key and the dirty flag the model
  data then reports for the key; it throws what the send throws.
\<close>

theorem setDirtyAttribute_cases:
  "(isDeleted G (im w) \<longrightarrow> (\<exists>msg. setDirtyAttribute E G key v w = Inl (EmberError msg)))
   \<and> (\<not> isDeleted G (im w) \<and> getAttr E (p_modelData (im w)) key = v \<longrightarrow>
        setDirtyAttribute E G key v w = Inr (v, w))
   \<and> (\<not> isDeleted G (im w) \<and> getAttr E (p_modelData (im w)) key \<noteq> v \<longrightarrow>
        setDirtyAttribute E G key v w
          = bindE
              (send E G ''didSetProperty''
                 (Props [(''name'', Str key),
                         (''isDirty'',
                          Bool (isAttrDirty E
                                  (md_setDirtyAttribute E (p_modelData (im w)) key v) key))])
                 (w\<lparr>im := (im w)\<lparr>p_modelData :=
                        md_setDirtyAttribute E (p_modelData (im w)) key v\<rparr>\<rparr>))
              (\<lambda>(r, w'). Inr (v, w')))"
  by (simp add: setDirtyAttribute_def Let_def)

theorem setDirtyAttribute_cases_witness:
  "setDirtyAttribute E0 G0 ''title'' (Str ''a'') (world_of (block 3))
     = Inr (Str ''a'', world_of (block 3))
   \<and> (\<exists>w'. setDirtyAttribute E0 G0 ''title'' (Str ''b'') (world_of (block 3))
             = Inr (Str ''b'', w')
         \<and> p_modelData (im w') = [(''title'', Str ''b'')]
         \<and> calls w' = [HandlerCall 3 ''didSetProperty''
                          (Props [(''name'', Str ''title''), (''isDirty'', Bool True)])])
   \<and> (\<exists>msg. setDirtyAttribute E0 G0 ''title'' (Str ''b'') (world_of (block 7))
             = Inl (EmberError msg))"
proof -
  have nd: "\<not> isDeleted G0 (im (world_of (block 3)))"
    by (simp add: isDeleted_def world_of_def block_def G0_def plain_state_def)
  have d: "isDeleted G0 (im (world_of (block 7)))"
    by (simp add: isDeleted_def world_of_def block_def G0_def plain_state_def)
  have g: "getAttr E0 (p_modelData (im (world_of (block 3)))) ''title'' = Str ''a''"
    by (simp add: world_of_def block_def E0_def new_InternalModel_def resetRecord_def)
  have s: "\<exists>w'. bindE
              (send E0 G0 ''didSetProperty''
                 (Props [(''name'', Str ''title''),
                         (''isDirty'',
                          Bool (isAttrDirty E0
                                  (md_setDirtyAttribute E0
                                     (p_modelData (im (world_of (block 3)))) ''title'' (Str ''b''))
                                  ''title''))])
                 ((world_of (block 3))\<lparr>im := (im (world_of (block 3)))\<lparr>p_modelData :=
                        md_setDirtyAttribute E0 (p_modelData (im (world_of (block 3))))
                          ''title'' (Str ''b'')\<rparr>\<rparr>))
              (\<lambda>(r, w'). Inr (Str ''b'', w'))
            = Inr (Str ''b'', w')
         \<and> p_modelData (im w') = [(''title'', Str ''b'')]
         \<and> calls w' = [HandlerCall 3 ''didSetProperty''
                          (Props [(''name'', Str ''title''), (''isDirty'', Bool True)])]"
    by (simp add: send_def bindE_def Let_def world_of_def block_def G0_def plain_state_def
          E0_def new_InternalModel_def resetRecord_def quiet_handler_def)
  from setDirtyAttribute_cases [of G0 "world_of (block 3)" E0 "''title''" "Str ''a''"] nd g
  have 1: "setDirtyAttribute E0 G0 ''title'' (Str ''a'') (world_of (block 3))
     = Inr (Str ''a'', world_of (block 3))" by simp
  from setDirtyAttribute_cases [of G0 "world_of (block 3)" E0 "''title''" "Str ''b''"] nd g s
  have 2: "\<exists>w'. setDirtyAttribute E0 G0 ''title'' (Str ''b'') (world_of (block 3))
             = Inr (Str ''b'', w')
         \<and> p_modelData (im w') = [(''title'', Str ''b'')]
         \<and> calls w' = [HandlerCall 3 ''didSetProperty''
                          (Props [(''name'', Str ''title''), (''isDirty'', Bool True)])]"
    by simp
  from setDirtyAttribute_cases [of G0 "world_of (block 7)" E0 "''title''" "Str ''b''"] d
  have 3: "\<exists>msg. setDirtyAttribute E0 G0 ''title'' (Str ''b'') (world_of (block 7))
             = Inl (EmberError msg)" by simp
  from 1 2 3 show ?thesis by blast
qed

subsection \<open>Unloading\<close>

text \<open>
  C7, as claimed: \<^verbatim>\<open>unloadRecord\<close> moves every entry of the active many-array cache to the
  retained cache. It does not when the block has no facade: \<^verbatim>\<open>dematerializeRecord\<close> moves
  the entries inside its test of \<^verbatim>\<open>this._record\<close>, so the live collection of a block that
  is not materialized stays in the active cache.
\<close>

theorem unloadRecord_moves_counterexample:
  "\<not> isDestroyed (im w_bare)
   \<and> p_manyArrayCache (im w_bare) = [(''comments'', 7)]
   \<and> unloadRecord E0 G0 w_bare = Inr w_bare_unloaded
   \<and> p_manyArrayCache (im w_bare_unloaded) = [(''comments'', 7)]
   \<and> p_retainedManyArrayCache (im w_bare_unloaded) = []"
  by (simp add: unloadRecord_def send_def bindE_def Let_def dematerializeRecord_def
        isDestroyed_def resetRecord_def updateRecordArrays_def w_bare_unloaded_def w_bare_def
        world_of_def block_def new_InternalModel_def G0_def plain_state_def E0_def
        quiet_handler_def)

text \<open>
  C7, amended. On a control block that is not destroyed, when the current state handles
  \<^verbatim>\<open>unloadRecord\<close> and the handler leaves the world \<open>w1\<close>, \<^verbatim>\<open>unloadRecord\<close> returns, and in
  the world it returns: the handler call comes first in the log; the block has no
  facade; if it had one after the send, the facade was destroyed, the active many-array
  cache is empty and each of its entries is in the retained cache; if it had none, both
  caches are as they were; if no destroy was scheduled, a new timer is scheduled,
  remembered by the block and queued, and if one was scheduled, nothing is scheduled
  and the timer stays; and when the run loop held exactly the timer the block
  remembered before, it does so after, which is exactly one timer. Nothing is said of
  the one case in which the assertion of the source on the run loop fires: no destroy
  scheduled, no current run loop, and not in testing mode.
\<close>

theorem unloadRecord_effect:
  assumes nd: "\<not> isDestroyed (im w)"
    and sd: "send E G ''unloadRecord'' (Plain Undefined) w = Inr (r, w1)"
    and rl: "p_scheduledDestroy (im w1) \<noteq> None \<or> currentRunLoop w \<or> testing w"
  shows "\<exists>w'. unloadRecord E G w = Inr w'
     \<and> prefix (calls w @ [HandlerCall (currentState (im w)) ''unloadRecord'' (Plain Undefined)])
          (calls w')
     \<and> p_record (im w') = None
     \<and> (\<forall>f. p_record (im w1) = Some f \<longrightarrow>
           FacadeDestroy (fid f) \<in> set (calls w')
         \<and> p_manyArrayCache (im w') = []
         \<and> (\<forall>k a. map_of (p_manyArrayCache (im w1)) k = Some a \<longrightarrow>
               map_of (p_retainedManyArrayCache (im w')) k = Some a))
     \<and> (p_record (im w1) = None \<longrightarrow>
           p_manyArrayCache (im w') = p_manyArrayCache (im w1)
         \<and> p_retainedManyArrayCache (im w') = p_retainedManyArrayCache (im w1))
     \<and> (case p_scheduledDestroy (im w1) of
           None \<Rightarrow>
             p_scheduledDestroy (im w') = Some (next_ref w1)
             \<and> destroyQueue w' = destroyQueue w1 @ [next_ref w1]
             \<and> calls w' = calls (dematerializeRecord E w1) @ [Schedule (next_ref w1)]
         | Some t \<Rightarrow>
             p_scheduledDestroy (im w') = Some t
             \<and> destroyQueue w' = destroyQueue w1
             \<and> calls w' = calls (dematerializeRecord E w1))
     \<and> (schedule_consistent w1 \<longrightarrow> schedule_consistent w' \<and> length (destroyQueue w') = 1)"
proof -
  let ?w2 = "dematerializeRecord E w1"
  let ?h = "HandlerCall (currentState (im w)) ''unloadRecord'' (Plain Undefined)"
  note fr = dematerializeRecord_frame [of E w1]
  have w1: "calls w1 = calls w @ [?h]"
    and g: "currentRunLoop w1 = currentRunLoop w" "testing w1 = testing w"
    using send_frame [OF sd] by blast+
  have pre: "prefix (calls w @ [?h]) (calls ?w2)"
    using dematerializeRecord_calls [of w1 E] unfolding w1 .
  show ?thesis
  proof (cases "p_scheduledDestroy (im w1)")
    case None
    let ?w' = "?w2\<lparr>im := (im ?w2)\<lparr>p_scheduledDestroy := Some (next_ref ?w2)\<rparr>,
                   next_ref := Suc (next_ref ?w2),
                   destroyQueue := destroyQueue ?w2 @ [next_ref ?w2],
                   calls := calls ?w2 @ [Schedule (next_ref ?w2)]\<rparr>"
    have u: "unloadRecord E G w = Inr ?w'"
      using nd sd rl None fr g by (simp add: unloadRecord_def bindE_def Let_def)
    have p: "prefix (calls w @ [?h]) (calls ?w')"
      using pre by (simp add: prefix_prefix)
    have n: "p_record (im ?w') = None" using fr by simp
    have f: "\<forall>f. p_record (im w1) = Some f \<longrightarrow>
           FacadeDestroy (fid f) \<in> set (calls ?w')
         \<and> p_manyArrayCache (im ?w') = []
         \<and> (\<forall>k a. map_of (p_manyArrayCache (im w1)) k = Some a \<longrightarrow>
               map_of (p_retainedManyArrayCache (im ?w')) k = Some a)"
      using dematerializeRecord_facade [of w1 _ E] by simp
    have o: "p_record (im w1) = None \<longrightarrow>
           p_manyArrayCache (im ?w') = p_manyArrayCache (im w1)
         \<and> p_retainedManyArrayCache (im ?w') = p_retainedManyArrayCache (im w1)"
      using dematerializeRecord_nofacade [of w1 E] by simp
    have c: "(case p_scheduledDestroy (im w1) of
           None \<Rightarrow>
             p_scheduledDestroy (im ?w') = Some (next_ref w1)
             \<and> destroyQueue ?w' = destroyQueue w1 @ [next_ref w1]
             \<and> calls ?w' = calls (dematerializeRecord E w1) @ [Schedule (next_ref w1)]
         | Some t \<Rightarrow>
             p_scheduledDestroy (im ?w') = Some t
             \<and> destroyQueue ?w' = destroyQueue w1
             \<and> calls ?w' = calls (dematerializeRecord E w1))"
      using None fr by simp
    have s: "schedule_consistent w1 \<longrightarrow> schedule_consistent ?w' \<and> length (destroyQueue ?w') = 1"
      using None fr by (simp add: schedule_consistent_def)
    show ?thesis by (rule exI [of _ ?w'], (intro conjI; fact))
  next
    case (Some t)
    have u: "unloadRecord E G w = Inr ?w2"
      using nd sd Some fr by (simp add: unloadRecord_def bindE_def Let_def)
    have n: "p_record (im ?w2) = None" using fr by simp
    have f: "\<forall>f. p_record (im w1) = Some f \<longrightarrow>
           FacadeDestroy (fid f) \<in> set (calls ?w2)
         \<and> p_manyArrayCache (im ?w2) = []
         \<and> (\<forall>k a. map_of (p_manyArrayCache (im w1)) k = Some a \<longrightarrow>
               map_of (p_retainedManyArrayCache (im ?w2)) k = Some a)"
      using dematerializeRecord_facade [of w1 _ E] by simp
    have o: "p_record (im w1) = None \<longrightarrow>
           p_manyArrayCache (im ?w2) = p_manyArrayCache (im w1)
         \<and> p_retainedManyArrayCache (im ?w2) = p_retainedManyArrayCache (im w1)"
      using dematerializeRecord_nofacade [of w1 E] by simp
    have c: "(case p_scheduledDestroy (im w1) of
           None \<Rightarrow>
             p_scheduledDestroy (im ?w2) = Some (next_ref w1)
             \<and> destroyQueue ?w2 = destroyQueue w1 @ [next_ref w1]
             \<and> calls ?w2 = calls (dematerializeRecord E w1) @ [Schedule (next_ref w1)]
         | Some t \<Rightarrow>
             p_scheduledDestroy (im ?w2) = Some t
             \<and> destroyQueue ?w2 = destroyQueue w1
             \<and> calls ?w2 = calls (dematerializeRecord E w1))"
      using Some fr by simp
    have s: "schedule_consistent w1 \<longrightarrow> schedule_consistent ?w2 \<and> length (destroyQueue ?w2) = 1"
      using Some fr by (simp add: schedule_consistent_def)
    show ?thesis by (rule exI [of _ ?w2], (intro conjI; fact))
  qed
qed

theorem unloadRecord_effect_witness:
  "\<not> isDestroyed (im w_rel)
   \<and> (\<exists>w'. unloadRecord E0 G0 w_rel = Inr w'
         \<and> p_record (im w') = None
         \<and> p_manyArrayCache (im w') = []
         \<and> map_of (p_retainedManyArrayCache (im w')) ''comments'' = Some 7
         \<and> p_scheduledDestroy (im w') = Some 100
         \<and> destroyQueue w' = [100]
         \<and> calls w' = [HandlerCall 3 ''unloadRecord'' (Plain Undefined), PromiseDestroy 9,
                         FacadeDestroy 50, RecordDidChange, Schedule 100])
   \<and> \<not> isDestroyed (im w_waiting) \<and> \<not> currentRunLoop w_waiting \<and> \<not> testing w_waiting
   \<and> (\<exists>w'. unloadRecord E0 G0 w_waiting = Inr w'
         \<and> p_scheduledDestroy (im w') = Some 99
         \<and> destroyQueue w' = [99]
         \<and> calls w' = [HandlerCall 3 ''unloadRecord'' (Plain Undefined), RecordDidChange])"
proof -
  let ?w1 = "w_rel\<lparr>calls := [HandlerCall 3 ''unloadRecord'' (Plain Undefined)]\<rparr>"
  have nd: "\<not> isDestroyed (im w_rel)"
    by (simp add: isDestroyed_def w_rel_def world_of_def block_def new_InternalModel_def
          resetRecord_def)
  have sd: "send E0 G0 ''unloadRecord'' (Plain Undefined) w_rel = Inr (Undefined, ?w1)"
    by (simp add: send_def Let_def w_rel_def world_of_def block_def G0_def plain_state_def
          quiet_handler_def)
  have rl: "p_scheduledDestroy (im ?w1) \<noteq> None \<or> currentRunLoop w_rel \<or> testing w_rel"
    by (simp add: w_rel_def world_of_def)
  have f: "p_record (im ?w1) = Some facade0" "fid facade0 = 50"
      "map_of (p_manyArrayCache (im ?w1)) ''comments'' = Some 7"
      "p_scheduledDestroy (im ?w1) = None" "next_ref ?w1 = 100" "destroyQueue ?w1 = []"
    by (simp_all add: w_rel_def world_of_def block_def facade0_def new_InternalModel_def
          resetRecord_def)
  have c: "calls (dematerializeRecord E0 ?w1)
      = [HandlerCall 3 ''unloadRecord'' (Plain Undefined), PromiseDestroy 9,
         FacadeDestroy 50, RecordDidChange]"
    by (simp add: dematerializeRecord_def Let_def w_rel_def world_of_def block_def keys_def
          facade0_def resetRecord_def updateRecordArrays_def new_InternalModel_def E0_def)
  from unloadRecord_effect [OF nd sd rl] obtain w' where
    u: "unloadRecord E0 G0 w_rel = Inr w'"
    and n: "p_record (im w') = None"
    and m: "\<forall>f. p_record (im ?w1) = Some f \<longrightarrow>
           FacadeDestroy (fid f) \<in> set (calls w')
         \<and> p_manyArrayCache (im w') = []
         \<and> (\<forall>k a. map_of (p_manyArrayCache (im ?w1)) k = Some a \<longrightarrow>
               map_of (p_retainedManyArrayCache (im w')) k = Some a)"
    and s: "(case p_scheduledDestroy (im ?w1) of
           None \<Rightarrow>
             p_scheduledDestroy (im w') = Some (next_ref ?w1)
             \<and> destroyQueue w' = destroyQueue ?w1 @ [next_ref ?w1]
             \<and> calls w' = calls (dematerializeRecord E0 ?w1) @ [Schedule (next_ref ?w1)]
         | Some t \<Rightarrow>
             p_scheduledDestroy (im w') = Some t
             \<and> destroyQueue w' = destroyQueue ?w1
             \<and> calls w' = calls (dematerializeRecord E0 ?w1))"
    by blast
  from m f have 1: "p_manyArrayCache (im w') = []"
    and 2: "map_of (p_retainedManyArrayCache (im w')) ''comments'' = Some 7"
    by blast+
  from s f c have 3: "p_scheduledDestroy (im w') = Some 100"
    and 4: "destroyQueue w' = [100]"
    and 5: "calls w' = [HandlerCall 3 ''unloadRecord'' (Plain Undefined), PromiseDestroy 9,
                         FacadeDestroy 50, RecordDidChange, Schedule 100]"
    by simp_all
  from u n 1 2 3 4 5
  have first: "\<exists>w'. unloadRecord E0 G0 w_rel = Inr w'
         \<and> p_record (im w') = None
         \<and> p_manyArrayCache (im w') = []
         \<and> map_of (p_retainedManyArrayCache (im w')) ''comments'' = Some 7
         \<and> p_scheduledDestroy (im w') = Some 100
         \<and> destroyQueue w' = [100]
         \<and> calls w' = [HandlerCall 3 ''unloadRecord'' (Plain Undefined), PromiseDestroy 9,
                         FacadeDestroy 50, RecordDidChange, Schedule 100]"
    by blast
  let ?v1 = "w_waiting\<lparr>calls := [HandlerCall 3 ''unloadRecord'' (Plain Undefined)]\<rparr>"
  have nd': "\<not> isDestroyed (im w_waiting)"
    by (simp add: isDestroyed_def w_waiting_def world_of_def block_def new_InternalModel_def
          resetRecord_def)
  have no: "\<not> currentRunLoop w_waiting" "\<not> testing w_waiting"
    by (simp_all add: w_waiting_def world_of_def)
  have sd': "send E0 G0 ''unloadRecord'' (Plain Undefined) w_waiting = Inr (Undefined, ?v1)"
    by (simp add: send_def Let_def w_waiting_def world_of_def block_def G0_def
          plain_state_def quiet_handler_def)
  have f': "p_scheduledDestroy (im ?v1) = Some 99" "destroyQueue ?v1 = [99]"
    by (simp_all add: w_waiting_def world_of_def block_def)
  then have rl': "p_scheduledDestroy (im ?v1) \<noteq> None \<or> currentRunLoop w_waiting
      \<or> testing w_waiting"
    by simp
  have c': "calls (dematerializeRecord E0 ?v1)
      = [HandlerCall 3 ''unloadRecord'' (Plain Undefined), RecordDidChange]"
    by (simp add: dematerializeRecord_def Let_def w_waiting_def world_of_def block_def
          resetRecord_def updateRecordArrays_def new_InternalModel_def E0_def)
  from unloadRecord_effect [OF nd' sd' rl'] obtain v' where
    u': "unloadRecord E0 G0 w_waiting = Inr v'"
    and s': "(case p_scheduledDestroy (im ?v1) of
           None \<Rightarrow>
             p_scheduledDestroy (im v') = Some (next_ref ?v1)
             \<and> destroyQueue v' = destroyQueue ?v1 @ [next_ref ?v1]
             \<and> calls v' = calls (dematerializeRecord E0 ?v1) @ [Schedule (next_ref ?v1)]
         | Some t \<Rightarrow>
             p_scheduledDestroy (im v') = Some t
             \<and> destroyQueue v' = destroyQueue ?v1
             \<and> calls v' = calls (dematerializeRecord E0 ?v1))"
    by blast
  from s' f' c' have "p_scheduledDestroy (im v') = Some 99" "destroyQueue v' = [99]"
      "calls v' = [HandlerCall 3 ''unloadRecord'' (Plain Undefined), RecordDidChange]"
    by simp_all
  with u' have second: "\<exists>w'. unloadRecord E0 G0 w_waiting = Inr w'
         \<and> p_scheduledDestroy (im w') = Some 99
         \<and> destroyQueue w' = [99]
         \<and> calls w' = [HandlerCall 3 ''unloadRecord'' (Plain Undefined), RecordDidChange]"
    by blast
  from nd first nd' no second show ?thesis by blast
qed

text \<open>
  C9. On a destroyed control block \<^verbatim>\<open>unloadRecord\<close> returns at once and leaves the world
  as it is: no event sent, nothing dematerialized, nothing scheduled. \<^verbatim>\<open>cancelDestroy\<close>
  on the same block throws.
\<close>

theorem unloadRecord_destroyed_noop:
  "isDestroyed (im w) \<Longrightarrow>
     unloadRecord E G w = Inr w \<and> (\<exists>msg. cancelDestroy w = Inl (AssertionFailed msg))"
  by (simp add: unloadRecord_def cancelDestroy_def)

theorem unloadRecord_destroyed_noop_witness:
  "isDestroyed (im w_destroyed)
   \<and> unloadRecord E0 G0 w_destroyed = Inr w_destroyed
   \<and> (\<exists>msg. cancelDestroy w_destroyed = Inl (AssertionFailed msg))"
proof -
  have d: "isDestroyed (im w_destroyed)"
    by (simp add: isDestroyed_def w_destroyed_def world_of_def)
  from unloadRecord_destroyed_noop [OF d, of E0 G0] d show ?thesis by blast
qed

text \<open>
  C10. \<^verbatim>\<open>_checkForOrphanedInternalModels\<close> clears the dematerializing flag and the handle
  of the scheduled destroy and changes nothing else: the destroyed flag, the retained
  cache and the log of calls (so no collection destroyed, nothing removed from the
  identity map) are as before. Neither do \<^verbatim>\<open>dematerializeRecord\<close> and \<^verbatim>\<open>cancelDestroy\<close>
  set the destroyed flag. It is \<^verbatim>\<open>destroy\<close> that sets it, empties the retained cache and
  removes the block from the identity map, and \<^verbatim>\<open>destroySync\<close> and
  \<^verbatim>\<open>destroyFromModelData\<close> set it only by calling \<^verbatim>\<open>destroy\<close>.
\<close>

theorem checkForOrphanedInternalModels_frame:
  "checkForOrphanedInternalModels w
     = w\<lparr>im := (im w)\<lparr>p_isDematerializing := False, p_scheduledDestroy := None\<rparr>\<rparr>
   \<and> isDestroyed (im (checkForOrphanedInternalModels w)) = isDestroyed (im w)
   \<and> p_retainedManyArrayCache (im (checkForOrphanedInternalModels w))
        = p_retainedManyArrayCache (im w)
   \<and> calls (checkForOrphanedInternalModels w) = calls w
   \<and> isDestroyed (im (dematerializeRecord E w)) = isDestroyed (im w)
   \<and> (\<forall>w'. cancelDestroy w = Inr w' \<longrightarrow> isDestroyed (im w') = isDestroyed (im w))
   \<and> (\<forall>w'. destroy w = Inr w' \<longrightarrow>
         isDestroyed (im w') \<and> p_retainedManyArrayCache (im w') = []
         \<and> RemoveFromIdMap \<in> set (calls w'))
   \<and> (\<forall>w'. destroySync w = Inr w' \<and> \<not> isDestroyed (im w) \<and> isDestroyed (im w') \<longrightarrow>
         (\<exists>w1. destroy w1 = Inr w'))
   \<and> (\<forall>w'. destroyFromModelData w = Inr w' \<and> \<not> isDestroyed (im w) \<and> isDestroyed (im w') \<longrightarrow>
         destroy w = Inr w')"
proof -
  have 1: "checkForOrphanedInternalModels w
     = w\<lparr>im := (im w)\<lparr>p_isDematerializing := False, p_scheduledDestroy := None\<rparr>\<rparr>"
    by (simp add: checkForOrphanedInternalModels_def Let_def)
  have 2: "isDestroyed (im (checkForOrphanedInternalModels w)) = isDestroyed (im w)"
    "p_retainedManyArrayCache (im (checkForOrphanedInternalModels w))
        = p_retainedManyArrayCache (im w)"
    "calls (checkForOrphanedInternalModels w) = calls w"
    unfolding 1 by (simp_all add: isDestroyed_def)
  have 3: "isDestroyed (im (dematerializeRecord E w)) = isDestroyed (im w)"
    by (cases "p_record (im w)")
       (simp_all add: dematerializeRecord_def Let_def resetRecord_def updateRecordArrays_def
          isDestroyed_def destroy_promises_caches retain_manyArrays_frame)
  have 4: "\<forall>w'. cancelDestroy w = Inr w' \<longrightarrow> isDestroyed (im w') = isDestroyed (im w)"
    by (auto simp: cancelDestroy_def Let_def isDestroyed_def split: if_splits)
  have 5: "\<forall>w'. destroy w = Inr w' \<longrightarrow>
         isDestroyed (im w') \<and> p_retainedManyArrayCache (im w') = []
         \<and> RemoveFromIdMap \<in> set (calls w')"
    using destroy_effect by blast
  have 6: "\<forall>w'. destroySync w = Inr w' \<and> \<not> isDestroyed (im w) \<and> isDestroyed (im w') \<longrightarrow>
         (\<exists>w1. destroy w1 = Inr w')"
  proof (intro allI impI)
    fix w'
    assume a: "destroySync w = Inr w' \<and> \<not> isDestroyed (im w) \<and> isDestroyed (im w')"
    then obtain w1 where
      w1: "(if p_isDematerializing (im w) then cancelDestroy w else Inr w) = Inr w1"
      and r: "(if isDestroyed (im (checkForOrphanedInternalModels w1))
                  \<or> isDestroying (im (checkForOrphanedInternalModels w1))
               then Inr (checkForOrphanedInternalModels w1)
               else destroy (checkForOrphanedInternalModels w1)) = Inr w'"
      by (auto simp: destroySync_def bindE_def Let_def split: sum.splits)
    from w1 a have "\<not> isDestroyed (im w1)"
      by (auto simp: cancelDestroy_def Let_def isDestroyed_def split: if_splits)
    then have "\<not> isDestroyed (im (checkForOrphanedInternalModels w1))"
      by (simp add: checkForOrphanedInternalModels_def Let_def isDestroyed_def)
    with r a have "destroy (checkForOrphanedInternalModels w1) = Inr w'"
      by (auto split: if_splits)
    then show "\<exists>w1. destroy w1 = Inr w'" ..
  qed
  have 7: "\<forall>w'. destroyFromModelData w = Inr w' \<and> \<not> isDestroyed (im w) \<and> isDestroyed (im w')
         \<longrightarrow> destroy w = Inr w'"
    by (auto simp: destroyFromModelData_def isDestroyed_def split: if_splits)
  from 1 2 3 4 5 6 7 show ?thesis by blast
qed

theorem checkForOrphanedInternalModels_frame_witness:
  "checkForOrphanedInternalModels w_pending
     = w_pending\<lparr>im := (im w_pending)\<lparr>p_isDematerializing := False,
                                        p_scheduledDestroy := None\<rparr>\<rparr>
   \<and> \<not> isDestroyed (im (checkForOrphanedInternalModels w_pending))
   \<and> p_retainedManyArrayCache (im (checkForOrphanedInternalModels w_pending)) = [(''tags'', 8)]
   \<and> calls (checkForOrphanedInternalModels w_pending) = []
   \<and> (\<exists>w'. destroy w_pending = Inr w' \<and> isDestroyed (im w')
         \<and> p_retainedManyArrayCache (im w') = []
         \<and> RemoveFromIdMap \<in> set (calls w'))"
proof -
  have a: "\<not> isDestroyed (im w_pending)" "p_retainedManyArrayCache (im w_pending) = [(''tags'', 8)]"
      "calls w_pending = []"
    by (simp_all add: isDestroyed_def w_pending_def world_of_def block_def
          new_InternalModel_def resetRecord_def)
  have d: "\<exists>w'. destroy w_pending = Inr w'"
    by (simp add: destroy_def Let_def w_pending_def world_of_def block_def
          new_InternalModel_def resetRecord_def)
  from checkForOrphanedInternalModels_frame [of w_pending E0] a d show ?thesis
    by (metis (no_types, lifting))
qed

subsection \<open>Materialization\<close>

text \<open>
  C8. A control block that holds a facade answers \<^verbatim>\<open>getRecord\<close> with that facade and
  stays as it is, whatever properties are passed: nothing is created and no property is
  applied. So, on a block that is not dematerializing, a call of \<^verbatim>\<open>getRecord\<close> that
  returns has returned a facade, and every later call returns the same facade and
  changes nothing.
\<close>

theorem getRecord_idempotent:
  "(p_record (im w) = Some f \<longrightarrow> getRecord E G props w = Inr (Some f, w))
   \<and> (\<not> p_isDematerializing (im w) \<and> getRecord E G props w = Inr (r, w1) \<longrightarrow>
        (\<exists>f. r = Some f \<and> getRecord E G props' w1 = Inr (Some f, w1)))"
proof (intro conjI impI)
  assume "p_record (im w) = Some f"
  then show "getRecord E G props w = Inr (Some f, w)" by (simp add: getRecord_def)
next
  assume a: "\<not> p_isDematerializing (im w) \<and> getRecord E G props w = Inr (r, w1)"
  then have "r \<noteq> None \<and> p_record (im w1) = r"
    by (auto simp add: getRecord_def bindE_def Let_def triggerDeferredTriggers_def
             split: if_splits sum.splits prod.splits option.splits)
  then obtain f where "r = Some f" "p_record (im w1) = Some f" by auto
  then have "r = Some f \<and> getRecord E G props' w1 = Inr (Some f, w1)"
    by (simp add: getRecord_def)
  then show "\<exists>f. r = Some f \<and> getRecord E G props' w1 = Inr (Some f, w1)" ..
qed

theorem getRecord_idempotent_witness:
  "\<exists>f w1. getRecord E0 G0 (Properties [(''title'', Str ''b''), (''note'', Num 1)])
             (world_of (block 3)) = Inr (Some f, w1)
     \<and> fid f = 100 \<and> f_options f = [(''note'', Num 1)]
     \<and> getRecord E0 G0 (Properties [(''title'', Str ''c'')]) w1 = Inr (Some f, w1)"
proof -
  let ?p = "Properties [(''title'', Str ''b''), (''note'', Num 1)]"
  have nd: "\<not> p_isDematerializing (im (world_of (block 3)))"
    by (simp add: world_of_def block_def new_InternalModel_def resetRecord_def)
  have "\<exists>r w1. getRecord E0 G0 ?p (world_of (block 3)) = Inr (r, w1)
      \<and> (\<forall>f. r = Some f \<longrightarrow> fid f = 100 \<and> f_options f = [(''note'', Num 1)])"
    by (simp add: getRecord_def Let_def bindE_def setDirtyAttribute_def send_def isDeleted_def
          triggerDeferredTriggers_def world_of_def block_def new_InternalModel_def
          resetRecord_def G0_def plain_state_def E0_def quiet_handler_def)
  then obtain r w1 where g: "getRecord E0 G0 ?p (world_of (block 3)) = Inr (r, w1)"
    and o: "\<forall>f. r = Some f \<longrightarrow> fid f = 100 \<and> f_options f = [(''note'', Num 1)]"
    by blast
  from getRecord_idempotent [of "world_of (block 3)" _ E0 G0 ?p r w1
      "Properties [(''title'', Str ''c'')]"] nd g
  obtain f where "r = Some f"
    and "getRecord E0 G0 (Properties [(''title'', Str ''c'')]) w1 = Inr (Some f, w1)"
    by blast
  with g o show ?thesis by blast
qed

end
